theory Spec2Isabelle
  imports Complex_Main
begin

section \<open>JavaScript values in the bid arithmetic\<close>

text \<open>
  The handler of \<open>backend/server.js\<close> computes \<open>auction.currentBid + auction.minimumIncrement\<close>
  and tests \<open>bidAmount < minimumBid\<close> on whatever values the payload and the store hold; it
  validates nothing. The handler is therefore modelled over an arbitrary type \<open>'v\<close> of
  values, with the two operators of the runtime as parameters: \<open>op_add\<close> is \<open>+\<close>, and
  \<open>op_lt a b\<close> says that \<open>a < b\<close> evaluates to \<open>true\<close>. What is proved for every \<open>ops\<close> holds
  for every value a payload can carry, strings and objects included. The operators are
  then given on the values without a string or an object in them, where they are number
  arithmetic.
\<close>

record 'v operators =
  op_add :: "'v \<Rightarrow> 'v \<Rightarrow> 'v"
  op_lt :: "'v \<Rightarrow> 'v \<Rightarrow> bool"

subsection \<open>Numbers\<close>

text \<open>
  A JavaScript number is an IEEE 754 binary64 value: not-a-number, an infinity, negative
  zero, or a finite value, given here by the rational it denotes (\<open>Finite 0\<close> is positive
  zero). \<open>round64\<close> rounds a rational to the nearest binary64 value, ties to the even
  significand: the result is a multiple of the quantum \<open>2 ^ q\<close>, where \<open>q\<close> is 52 below the
  binary exponent of the argument and at least \<open>-1074\<close>, and a result of \<open>2 ^ 1024\<close> or more
  is an infinity.
\<close>

datatype number = NaN | PosInfinity | NegInfinity | NegZero | Finite rat

fun bits :: "nat \<Rightarrow> nat" where
  "bits n = (if n = 0 then 0 else Suc (bits (n div 2)))"

declare bits.simps [simp del]

definition pow2 :: "int \<Rightarrow> rat" where
  "pow2 e = (if 0 \<le> e then 2 ^ nat e else 1 / 2 ^ nat (- e))"

definition ilog2 :: "rat \<Rightarrow> int" where
  "ilog2 x = (if 1 \<le> x then int (bits (nat \<lfloor>x\<rfloor>)) - 1
              else - int (bits (nat \<lceil>1 / x\<rceil> - 1)))"

definition round_half_even :: "rat \<Rightarrow> int" where
  "round_half_even y =
     (let f = \<lfloor>y\<rfloor>; r = y - of_int f
      in if r < 1 / 2 then f else if 1 / 2 < r then f + 1 else if even f then f else f + 1)"

definition round64 :: "rat \<Rightarrow> number" where
  "round64 x =
     (if x = 0 then Finite 0
      else
        (let a = \<bar>x\<bar>;
             q = max (ilog2 a - 52) (- 1074);
             n = round_half_even (a / pow2 q);
             v = of_int n * pow2 q
         in if pow2 1024 \<le> v then (if x < 0 then NegInfinity else PosInfinity)
            else if n = 0 then (if x < 0 then NegZero else Finite 0)
            else Finite (if x < 0 then - v else v)))"

fun val :: "number \<Rightarrow> rat" where
  "val (Finite x) = x"
| "val n = 0"

text \<open>\<open>Number::add\<close> and \<open>Number::lessThan\<close> of the language specification.\<close>

fun number_add :: "number \<Rightarrow> number \<Rightarrow> number" where
  "number_add NaN y = NaN"
| "number_add x NaN = NaN"
| "number_add PosInfinity NegInfinity = NaN"
| "number_add NegInfinity PosInfinity = NaN"
| "number_add PosInfinity y = PosInfinity"
| "number_add NegInfinity y = NegInfinity"
| "number_add x PosInfinity = PosInfinity"
| "number_add x NegInfinity = NegInfinity"
| "number_add NegZero NegZero = NegZero"
| "number_add x y = round64 (val x + val y)"

fun number_lt :: "number \<Rightarrow> number \<Rightarrow> bool" where
  "number_lt NaN y = False"
| "number_lt x NaN = False"
| "number_lt PosInfinity y = False"
| "number_lt x NegInfinity = False"
| "number_lt NegInfinity y = True"
| "number_lt x PosInfinity = True"
| "number_lt x y = (val x < val y)"

subsection \<open>The values without a string or an object in them\<close>

text \<open>
  On \<open>undefined\<close> (a key missing from the payload), \<open>null\<close>, booleans and numbers, both
  operators convert their operands with \<open>ToNumber\<close> and work on the numbers.
\<close>

datatype jsval = Undefined | Null | Boolean bool | Number number

fun ToNumber :: "jsval \<Rightarrow> number" where
  "ToNumber Undefined = NaN"
| "ToNumber Null = Finite 0"
| "ToNumber (Boolean b) = (if b then Finite 1 else Finite 0)"
| "ToNumber (Number n) = n"

definition js_add :: "jsval \<Rightarrow> jsval \<Rightarrow> jsval" where
  "js_add a b = Number (number_add (ToNumber a) (ToNumber b))"

definition js_lt :: "jsval \<Rightarrow> jsval \<Rightarrow> bool" where
  "js_lt a b = number_lt (ToNumber a) (ToNumber b)"

definition js :: "jsval operators" where
  "js = \<lparr>op_add = js_add, op_lt = js_lt\<rparr>"

text \<open>The number with an integer value.\<close>

definition num :: "int \<Rightarrow> jsval" where
  "num k = Number (Finite (of_int k))"



section \<open>The in-memory auction store of \<open>backend/server.js\<close>\<close>

text \<open>
  The server keeps one array \<open>auctionItems\<close> of auction objects and mutates the object
  found for a bid in place. Prices and amounts are values of type \<open>'v\<close>. Timestamps are
  integers: the seed's \<open>endTime\<close> and every \<open>Date.now()\<close> reading are whole milliseconds
  far below \<open>2 ^ 53\<close>. A \<open>bidderName\<close> that is missing from the payload is \<open>None\<close>.
\<close>

record 'v bid =
  amount :: 'v
  bidder :: string
  timestamp :: int

record 'v auction =
  id' :: int
  title :: string
  description :: string
  image :: string
  currentBid :: 'v
  minimumIncrement :: 'v
  endTime :: int
  highestBidder :: "string option"
  bidHistory :: "'v bid list"

text \<open>
  The seed store. Each \<open>endTime\<close> is computed from its own \<open>Date.now()\<close> reading when
  the module is loaded; the four readings are the parameters.
\<close>

definition auctionItems :: "int \<Rightarrow> int \<Rightarrow> int \<Rightarrow> int \<Rightarrow> jsval auction list" where
  "auctionItems t1 t2 t3 t4 =
    [\<lparr>id' = 1, title = ''Vintage Camera'',
      description = ''Classic 35mm film camera in excellent condition'',
      image = ''https://images.unsplash.com/photo-1526170375885-4d8ecf77b99f?w=400'',
      currentBid = num 150, minimumIncrement = num 10, endTime = t1 + 900000,
      highestBidder = None, bidHistory = []\<rparr>,
     \<lparr>id' = 2, title = ''Designer Watch'',
      description = ''Luxury timepiece with leather strap'',
      image = ''https://images.unsplash.com/photo-1523275335684-37898b6baf30?w=400'',
      currentBid = num 500, minimumIncrement = num 10, endTime = t2 + 1200000,
      highestBidder = None, bidHistory = []\<rparr>,
     \<lparr>id' = 3, title = ''Rare Book Collection'',
      description = ''First edition classics in pristine condition'',
      image = ''https://images.unsplash.com/photo-1495446815901-a7297e633e8d?w=400'',
      currentBid = num 200, minimumIncrement = num 10, endTime = t3 + 1500000,
      highestBidder = None, bidHistory = []\<rparr>,
     \<lparr>id' = 4, title = ''Antique Desk Lamp'',
      description = ''Art deco brass lamp from the 1930s'',
      image = ''https://images.unsplash.com/photo-1507473885765-e6ed057f782c?w=400'',
      currentBid = num 80, minimumIncrement = num 5, endTime = t4 + 1800000,
      highestBidder = None, bidHistory = []\<rparr>]"

section \<open>Events sent by the \<open>place-bid\<close> handler\<close>

text \<open>
  The payload of the \<open>place-bid\<close> event, and the payloads the handler sends back:
  \<open>bid-error\<close> (message, auctionId, and minimumBid when the object has that key),
  \<open>auction-update\<close> (auctionId, currentBid, highestBidder, bidHistory) and
  \<open>bid-success\<close> (auctionId, currentBid). \<open>SocketEmit\<close> is \<open>socket.emit\<close>, which reaches
  the submitting connection only; \<open>IoEmit\<close> is \<open>io.emit\<close>, which reaches every connection.

  A message is a string literal of the source, or the template literal
  \<open>`Bid must be at least $${minimumBid}`\<close>, kept as its literal part and the value that the
  runtime converts to text.
\<close>

record 'v place_bid_data =
  auctionId :: int
  bidAmount :: 'v
  bidderName :: "string option"

datatype 'v message = Text string | Template string 'v

datatype 'v payload =
    BidError "'v message" int "'v option"
  | AuctionUpdate int 'v "string option" "'v bid list"
  | BidSuccess int 'v

datatype 'v emission = SocketEmit "'v payload" | IoEmit "'v payload"

subsection \<open>\<open>Array.prototype.find\<close> and \<open>||\<close>\<close>

text \<open>
  \<open>find\<close> returns a reference to the first element that satisfies the predicate, or
  \<open>undefined\<close>. The reference is the element's position in the array.
\<close>

fun findRef :: "('a \<Rightarrow> bool) \<Rightarrow> 'a list \<Rightarrow> nat option" where
  "findRef P [] = None"
| "findRef P (x # xs) = (if P x then Some 0 else map_option Suc (findRef P xs))"

text \<open>
  \<open>bidderName || socket.id\<close>: the name unless it is falsy, that is missing or the empty
  string; any other string, also one of spaces only, is truthy.
\<close>

fun orElse :: "string option \<Rightarrow> string \<Rightarrow> string" where
  "orElse None d = d"
| "orElse (Some n) d = (if n = [] then d else n)"

section \<open>The handler\<close>

text \<open>
  \<open>place_bid ops items socket_id now_check now_stamp data\<close> is one run of the handler's
  body on the store \<open>items\<close> for the connection \<open>socket_id\<close> and the payload \<open>data\<close>. The
  handler reads the clock twice: \<open>now_check\<close> is the reading compared with \<open>endTime\<close>,
  \<open>now_stamp\<close> the later reading stored in the history entry. The result is the store after
  the run and the events sent, in order. The handler's \<open>console.log\<close> line is left out.
\<close>

definition place_bid ::
  "'v operators \<Rightarrow> 'v auction list \<Rightarrow> string \<Rightarrow> int \<Rightarrow> int \<Rightarrow> 'v place_bid_data \<Rightarrow>
     'v auction list \<times> 'v emission list"
where
  "place_bid ops items socket_id now_check now_stamp data =
    (case findRef (\<lambda>item. id' item = auctionId data) items of
       None \<Rightarrow>
         (items, [SocketEmit (BidError (Text ''Auction not found'') (auctionId data) None)])
     | Some r \<Rightarrow>
         (let auction = items ! r in
          if now_check \<ge> endTime auction then
            (items, [SocketEmit (BidError (Text ''Auction has ended'') (auctionId data) None)])
          else
            (let minimumBid = op_add ops (currentBid auction) (minimumIncrement auction) in
             if op_lt ops (bidAmount data) minimumBid then
               (items,
                [SocketEmit (BidError (Template ''Bid must be at least $'' minimumBid)
                   (auctionId data) (Some minimumBid))])
             else
               (let auction' = auction
                      \<lparr>currentBid := bidAmount data,
                       highestBidder := Some (orElse (bidderName data) socket_id),
                       bidHistory := bidHistory auction @
                         [\<lparr>amount = bidAmount data,
                           bidder = orElse (bidderName data) socket_id,
                           timestamp = now_stamp\<rparr>]\<rparr>
                in (items[r := auction'],
                    [IoEmit (AuctionUpdate (auctionId data) (currentBid auction')
                       (highestBidder auction') (bidHistory auction')),
                     SocketEmit (BidSuccess (auctionId data) (currentBid auction'))])))))"

text \<open>
  The handler starts by destructuring its argument, which throws a \<open>TypeError\<close> when the
  event came without a payload (\<open>None\<close>), before anything is read or written.
\<close>

datatype error = TypeError

definition on_place_bid ::
  "'v operators \<Rightarrow> 'v auction list \<Rightarrow> string \<Rightarrow> int \<Rightarrow> int \<Rightarrow> 'v place_bid_data option \<Rightarrow>
     error + 'v auction list \<times> 'v emission list"
where
  "on_place_bid ops items socket_id now_check now_stamp data =
    (case data of
       None \<Rightarrow> Inl TypeError
     | Some d \<Rightarrow> Inr (place_bid ops items socket_id now_check now_stamp d))"

text \<open>
  The event loop runs one handler to completion before the next starts, so a sequence of
  incoming events is a sequence of calls, each on the store the previous one left. Nothing
  catches the \<open>TypeError\<close>: the process ends with the store as it was, and the calls after
  it are not served.
\<close>

record 'v call =
  socket_id :: string
  now_check :: int
  now_stamp :: int
  payload_in :: "'v place_bid_data option"

definition handle ::
  "'v operators \<Rightarrow> 'v auction list \<Rightarrow> 'v call \<Rightarrow> error + 'v auction list \<times> 'v emission list"
where
  "handle ops items c =
     on_place_bid ops items (socket_id c) (now_check c) (now_stamp c) (payload_in c)"

fun serve :: "'v operators \<Rightarrow> 'v auction list \<Rightarrow> 'v call list \<Rightarrow> 'v auction list" where
  "serve ops items [] = items"
| "serve ops items (c # cs) =
     (case handle ops items c of
        Inl e \<Rightarrow> items
      | Inr r \<Rightarrow> serve ops (fst r) cs)"

text \<open>A store as the module creates it: nobody has bid on any auction yet.\<close>

definition fresh :: "'v auction list \<Rightarrow> bool" where
  "fresh items = list_all (\<lambda>a. highestBidder a = None \<and> bidHistory a = []) items"

text \<open>The handler confirmed the bid: it sent \<open>bid-success\<close> to the submitter.\<close>

fun is_success :: "'v emission \<Rightarrow> bool" where
  "is_success (SocketEmit (BidSuccess a c)) = True"
| "is_success e = False"

definition accepted :: "'v emission list \<Rightarrow> bool" where
  "accepted es = list_ex is_success es"

subsection \<open>What a history says about an auction\<close>

text \<open>
  \<open>climbs ops prev inc xs\<close>: starting from the price \<open>prev\<close>, no amount of \<open>xs\<close> is less
  than the sum of the one before it and \<open>inc\<close>, with the sum and the comparison as the
  handler computes them. \<open>tracks ops seed a\<close>: the auction \<open>a\<close> is the seed auction \<open>seed\<close>
  after some bids, that is, it has the seed's fixed fields, its price and highest bidder
  are those of the last history entry (the seed's when there is none), and the amounts of
  its history climb from the seed price by its increment.
\<close>

fun climbs :: "'v operators \<Rightarrow> 'v \<Rightarrow> 'v \<Rightarrow> 'v list \<Rightarrow> bool" where
  "climbs ops prev inc [] = True"
| "climbs ops prev inc (x # xs) =
     (\<not> op_lt ops x (op_add ops prev inc) \<and> climbs ops x inc xs)"

definition tracks :: "'v operators \<Rightarrow> 'v auction \<Rightarrow> 'v auction \<Rightarrow> bool" where
  "tracks ops seed a =
     (id' a = id' seed \<and> minimumIncrement a = minimumIncrement seed \<and>
      endTime a = endTime seed \<and>
      currentBid a = last (currentBid seed # map amount (bidHistory a)) \<and>
      highestBidder a = last (None # map (\<lambda>b. Some (bidder b)) (bidHistory a)) \<and>
      climbs ops (currentBid seed) (minimumIncrement seed) (map amount (bidHistory a)))"


section \<open>Facts about numbers\<close>

lemma bits_unique: "2 ^ k \<le> n \<Longrightarrow> n < 2 ^ Suc k \<Longrightarrow> bits n = Suc k"
proof (induction k arbitrary: n)
  case 0
  then have "n = 1" by simp
  then show ?case by (simp add: bits.simps)
next
  case (Suc k)
  from Suc.prems have "2 ^ k \<le> n div 2" "n div 2 < 2 ^ Suc k" by simp_all
  then have "bits (n div 2) = Suc k" by (rule Suc.IH)
  moreover from Suc.prems have "n \<noteq> 0" by auto
  ultimately show ?case by (subst bits.simps) simp
qed

lemma bits_bounds: "0 < n \<Longrightarrow> 2 ^ (bits n - 1) \<le> n \<and> n < 2 ^ bits n"
proof (induction n rule: bits.induct)
  case (1 n)
  show ?case
  proof (cases "n div 2 = 0")
    case True
    with "1.prems" have "n = 1" by (simp add: div_eq_0_iff) 
    then show ?thesis by (simp add: bits.simps)
  next
    case False
    with "1.IH" "1.prems" have IH: "2 ^ (bits (n div 2) - 1) \<le> n div 2" "n div 2 < 2 ^ bits (n div 2)"
      by simp_all
    from False have pos: "0 < bits (n div 2)" by (subst bits.simps) simp
    have b: "bits n = Suc (bits (n div 2))" using "1.prems" by (subst bits.simps) simp
    from IH(1) have "2 * 2 ^ (bits (n div 2) - 1) \<le> n" by simp
    with pos have lo: "2 ^ bits (n div 2) \<le> n"
      by (cases "bits (n div 2)") simp_all
    from IH(2) have hi: "n < 2 * 2 ^ bits (n div 2)" by simp
    from lo hi b show ?thesis by simp
  qed
qed

lemma ilog2_int:
  assumes "2 ^ k \<le> m" and "m < 2 ^ Suc k"
  shows "ilog2 (of_int m) = int k"
proof -
  from assms(1) have m: "1 \<le> m"
    by (meson one_le_numeral one_le_power order_trans)
  have "2 ^ k \<le> nat m" "nat m < 2 ^ Suc k"
    using assms m by (simp_all add: le_nat_iff nat_less_iff)
  then have "bits (nat m) = Suc k" by (rule bits_unique)
  with m show ?thesis by (simp add: ilog2_def)
qed

lemma round_half_even_int: "round_half_even (of_int n) = n"
  by (simp add: round_half_even_def)

lemma pow2_neg: "pow2 (- int j) = 1 / 2 ^ j"
  by (simp add: pow2_def)

lemma pow2_nonneg: "pow2 (int j) = 2 ^ j"
  by (simp add: pow2_def)


lemma round64_int:
  assumes "\<bar>m\<bar> < 2 ^ 53"
  shows "round64 (of_int m) = Finite (of_int m)"
proof (cases "m = 0")
  case True
  then show ?thesis by (simp add: round64_def)
next
  case False
  define M where "M = \<bar>m\<bar>"
  from False assms have M: "0 < M" "M < 2 ^ 53" by (simp_all add: M_def)
  then have "0 < nat M" by simp
  from bits_bounds [OF this] obtain k where k: "2 ^ k \<le> nat M" "nat M < 2 ^ Suc k"
    by (cases "bits (nat M)") auto
  then have km: "2 ^ k \<le> M" "M < 2 ^ Suc k"
    using M(1) by (simp_all add: le_nat_iff nat_less_iff)
  have "k < 53"
  proof (rule ccontr)
    assume "\<not> k < 53"
    then have "(2::int) ^ 53 \<le> 2 ^ k" by (intro power_increasing) simp_all
    with km(1) M(2) show False by simp
  qed
  define j where "j = 52 - k"
  with \<open>k < 53\<close> have j: "int k - 52 = - int j" by simp
  have a: "\<bar>of_int m :: rat\<bar> = of_int M" by (simp add: M_def)
  have e: "ilog2 (of_int M) = int k"
    using km by (rule ilog2_int)
  have q: "max (int k - 52) (- 1074) = - int j" using j by simp
  have scaled: "(of_int M :: rat) / pow2 (- int j) = of_int (M * 2 ^ j)"
    by (simp add: pow2_neg)
  have n: "round_half_even (of_int M / pow2 (- int j)) = M * 2 ^ j"
    unfolding scaled by (rule round_half_even_int)
  have v: "(of_int (M * 2 ^ j) :: rat) * pow2 (- int j) = of_int M"
    by (simp add: pow2_neg)
  have "(of_int M :: rat) < 2 ^ 53" using M(2)
    by (metis of_int_less_iff of_int_numeral of_int_power)
  also have "\<dots> \<le> 2 ^ 1024" by (intro power_increasing) simp_all
  finally have small: "\<not> pow2 1024 \<le> (of_int M :: rat)" by (simp add: pow2_def)
  from M(1) have nz: "M * 2 ^ j \<noteq> 0" by simp
  have sign: "(if (of_int m :: rat) < 0 then - of_int M else of_int M) = of_int m"
    by (simp add: M_def)
  from False have "(of_int m :: rat) \<noteq> 0" by simp
  then show ?thesis
    unfolding round64_def Let_def a e q n v using small nz sign by simp
qed

lemma js_add_num: "\<bar>a + b\<bar> < 2 ^ 53 \<Longrightarrow> js_add (num a) (num b) = num (a + b)"
  using round64_int [of "a + b"] by (simp add: js_add_def num_def)

lemma js_lt_num: "js_lt (num a) (num b) \<longleftrightarrow> a < b"
  by (simp add: js_lt_def num_def)

lemma number_lt_irrefl: "\<not> number_lt n n"
  by (cases n) simp_all

lemma js_lt_irrefl: "\<not> js_lt v v"
  by (simp add: js_lt_def number_lt_irrefl)

lemma round64_above_2p53: "round64 9007199254740997 = Finite 9007199254740996"
proof -
  have e: "ilog2 (of_int 9007199254740997) = int 53"
    by (rule ilog2_int) simp_all
  then have e': "ilog2 \<bar>9007199254740997\<bar> = 53" by simp
  have p1: "pow2 1 = 2" by (simp add: pow2_def)
  have fl: "\<lfloor>9007199254740997 / 2 :: rat\<rfloor> = 4503599627370498"
    by (rule floor_unique) simp_all
  have n: "round_half_even (9007199254740997 / 2) = 4503599627370498"
    by (simp add: round_half_even_def Let_def fl)
  have "(9007199254740996 :: rat) < 2 ^ 54" by simp
  also have "\<dots> \<le> 2 ^ 1024" by (intro power_increasing) simp_all
  finally have small: "\<not> pow2 1024 \<le> (9007199254740996 :: rat)" by (simp add: pow2_def)
  show ?thesis
    unfolding round64_def Let_def e' by (simp add: p1 n small)
qed

lemma js_add_above_2p53:
  "js_add (num 9007199254740992) (num 5) = num 9007199254740996"
  using round64_above_2p53 by (simp add: js_add_def num_def)





section \<open>Basic facts\<close>

lemma findRef_Some:
  "findRef P xs = Some r \<Longrightarrow> r < length xs \<and> P (xs ! r) \<and> (\<forall>j<r. \<not> P (xs ! j))"
proof (induction xs arbitrary: r)
  case Nil
  then show ?case by simp
next
  case (Cons x xs)
  show ?case
  proof (cases "P x")
    case True
    with Cons.prems show ?thesis by simp
  next
    case False
    with Cons.prems obtain r' where r': "findRef P xs = Some r'" "r = Suc r'"
      by auto
    from Cons.IH [OF r'(1)] False r'(2) show ?thesis
      by (auto simp: nth_Cons split: nat.splits)
  qed
qed

lemma findRef_None: "findRef P xs = None \<longleftrightarrow> (\<forall>x\<in>set xs. \<not> P x)"
  by (induction xs) auto

subsection \<open>The seed store\<close>

lemma auctionItems_fresh: "fresh (auctionItems t1 t2 t3 t4)"
  by (simp add: fresh_def auctionItems_def)

lemma auctionItems_ids: "map id' (auctionItems t1 t2 t3 t4) = [1, 2, 3, 4]"
  by (simp add: auctionItems_def)

lemma auctionItems_prices:
  "map currentBid (auctionItems t1 t2 t3 t4) = [num 150, num 500, num 200, num 80]"
  "map minimumIncrement (auctionItems t1 t2 t3 t4) = [num 10, num 10, num 10, num 5]"
  by (simp_all add: auctionItems_def)

subsection \<open>The four ways through the handler\<close>

lemma place_bid_not_found:
  "findRef (\<lambda>item. id' item = auctionId data) items = None \<Longrightarrow>
   place_bid ops items sid nc ns data =
     (items, [SocketEmit (BidError (Text ''Auction not found'') (auctionId data) None)])"
  by (simp add: place_bid_def)

lemma place_bid_ended:
  "findRef (\<lambda>item. id' item = auctionId data) items = Some r \<Longrightarrow>
   endTime (items ! r) \<le> nc \<Longrightarrow>
   place_bid ops items sid nc ns data =
     (items, [SocketEmit (BidError (Text ''Auction has ended'') (auctionId data) None)])"
  by (simp add: place_bid_def)

lemma place_bid_too_low:
  "findRef (\<lambda>item. id' item = auctionId data) items = Some r \<Longrightarrow>
   nc < endTime (items ! r) \<Longrightarrow>
   op_lt ops (bidAmount data)
     (op_add ops (currentBid (items ! r)) (minimumIncrement (items ! r))) \<Longrightarrow>
   place_bid ops items sid nc ns data =
     (items,
      [SocketEmit (BidError
         (Template ''Bid must be at least $''
            (op_add ops (currentBid (items ! r)) (minimumIncrement (items ! r))))
         (auctionId data)
         (Some (op_add ops (currentBid (items ! r)) (minimumIncrement (items ! r)))))])"
  by (simp add: place_bid_def Let_def)

lemma place_bid_applied:
  "findRef (\<lambda>item. id' item = auctionId data) items = Some r \<Longrightarrow>
   nc < endTime (items ! r) \<Longrightarrow>
   \<not> op_lt ops (bidAmount data)
     (op_add ops (currentBid (items ! r)) (minimumIncrement (items ! r))) \<Longrightarrow>
   place_bid ops items sid nc ns data =
     (items[r := (items ! r)
        \<lparr>currentBid := bidAmount data,
         highestBidder := Some (orElse (bidderName data) sid),
         bidHistory := bidHistory (items ! r) @
           [\<lparr>amount = bidAmount data, bidder = orElse (bidderName data) sid,
             timestamp = ns\<rparr>]\<rparr>],
      [IoEmit (AuctionUpdate (auctionId data) (bidAmount data)
         (Some (orElse (bidderName data) sid))
         (bidHistory (items ! r) @
           [\<lparr>amount = bidAmount data, bidder = orElse (bidderName data) sid,
             timestamp = ns\<rparr>])),
       SocketEmit (BidSuccess (auctionId data) (bidAmount data))])"
  by (simp add: place_bid_def Let_def)

lemma accepted_iff:
  "accepted (snd (place_bid ops items sid nc ns data)) \<longleftrightarrow>
     (\<exists>r. findRef (\<lambda>item. id' item = auctionId data) items = Some r \<and>
          nc < endTime (items ! r) \<and>
          \<not> op_lt ops (bidAmount data)
            (op_add ops (currentBid (items ! r)) (minimumIncrement (items ! r))))"
  by (auto simp: place_bid_def Let_def accepted_def split: option.splits)

subsection \<open>The store after one run of the body\<close>

lemma place_bid_store:
  obtains (same) "fst (place_bid ops items sid nc ns data) = items"
      and "\<not> accepted (snd (place_bid ops items sid nc ns data))"
  | (applied) r where "findRef (\<lambda>item. id' item = auctionId data) items = Some r"
      and "r < length items"
      and "nc < endTime (items ! r)"
      and "\<not> op_lt ops (bidAmount data)
             (op_add ops (currentBid (items ! r)) (minimumIncrement (items ! r)))"
      and "fst (place_bid ops items sid nc ns data) = items[r := (items ! r)
             \<lparr>currentBid := bidAmount data,
              highestBidder := Some (orElse (bidderName data) sid),
              bidHistory := bidHistory (items ! r) @
                [\<lparr>amount = bidAmount data, bidder = orElse (bidderName data) sid,
                  timestamp = ns\<rparr>]\<rparr>]"
proof (cases "accepted (snd (place_bid ops items sid nc ns data))")
  case False
  then have "fst (place_bid ops items sid nc ns data) = items"
    by (auto simp: place_bid_def Let_def accepted_def split: option.splits if_splits)
  then show ?thesis using False by (rule same)
next
  case True
  then obtain r where r: "findRef (\<lambda>item. id' item = auctionId data) items = Some r"
    "nc < endTime (items ! r)"
    "\<not> op_lt ops (bidAmount data)
       (op_add ops (currentBid (items ! r)) (minimumIncrement (items ! r)))"
    unfolding accepted_iff by blast
  from r(1) have "r < length items" by (auto dest: findRef_Some)
  with r(1) show ?thesis
    using r(2,3) by (rule applied) (simp add: place_bid_applied [OF r])
qed

lemma place_bid_length: "length (fst (place_bid ops items sid nc ns data)) = length items"
  by (cases rule: place_bid_store [of ops items sid nc ns data]) simp_all

lemma place_bid_fixed:
  assumes "i < length items"
  shows "id' (fst (place_bid ops items sid nc ns data) ! i) = id' (items ! i)"
    and "minimumIncrement (fst (place_bid ops items sid nc ns data) ! i) =
           minimumIncrement (items ! i)"
    and "endTime (fst (place_bid ops items sid nc ns data) ! i) = endTime (items ! i)"
  using assms
  by (cases rule: place_bid_store [of ops items sid nc ns data]; simp add: nth_list_update)+

subsection \<open>The operators on numbers\<close>

lemma js_ops: "op_add js = js_add" "op_lt js = js_lt"
  by (simp_all add: js_def)

lemma seed_accepts:
  assumes "findRef (\<lambda>item. id' item = auctionId data) (auctionItems t1 t2 t3 t4) = Some r"
    and "nc < endTime (auctionItems t1 t2 t3 t4 ! r)"
    and "\<not> js_lt (bidAmount data)
           (js_add (currentBid (auctionItems t1 t2 t3 t4 ! r))
              (minimumIncrement (auctionItems t1 t2 t3 t4 ! r)))"
  shows "accepted (snd (place_bid js (auctionItems t1 t2 t3 t4) sid nc ns data))"
  unfolding accepted_iff js_ops using assms by blast

subsection \<open>The store after a sequence of calls\<close>

lemma serve_Cons_None: "payload_in c = None \<Longrightarrow> serve ops items (c # cs) = items"
  by (simp add: handle_def on_place_bid_def)

lemma serve_Cons_Some:
  "payload_in c = Some d \<Longrightarrow>
   serve ops items (c # cs) =
     serve ops (fst (place_bid ops items (socket_id c) (now_check c) (now_stamp c) d)) cs"
  by (simp add: handle_def on_place_bid_def)


lemma serve_length: "length (serve ops items cs) = length items"
proof (induction cs arbitrary: items)
  case Nil
  then show ?case by simp
next
  case (Cons c cs)
  then show ?case
    by (cases "payload_in c")
      (simp_all add: serve_Cons_None serve_Cons_Some place_bid_length del: serve.simps)
qed

lemma serve_fixed:
  assumes "i < length items"
  shows "id' (serve ops items cs ! i) = id' (items ! i)"
    and "minimumIncrement (serve ops items cs ! i) = minimumIncrement (items ! i)"
    and "endTime (serve ops items cs ! i) = endTime (items ! i)"
  using assms
proof (induction cs arbitrary: items)
  case Nil
  {
    case 1 show ?case by simp
  next
    case 2 show ?case by simp
  next
    case 3 show ?case by simp
  }
next
  case (Cons c cs)
  {
    case 1
    then show ?case
      by (cases "payload_in c")
        (simp_all add: serve_Cons_None serve_Cons_Some Cons.IH(1) place_bid_length
          place_bid_fixed del: serve.simps)
  next
    case 2
    then show ?case
      by (cases "payload_in c")
        (simp_all add: serve_Cons_None serve_Cons_Some Cons.IH(2) place_bid_length
          place_bid_fixed del: serve.simps)
  next
    case 3
    then show ?case
      by (cases "payload_in c")
        (simp_all add: serve_Cons_None serve_Cons_Some Cons.IH(3) place_bid_length
          place_bid_fixed del: serve.simps)
  }
qed

lemma climbs_snoc:
  "climbs ops prev inc (xs @ [x]) \<longleftrightarrow>
     climbs ops prev inc xs \<and> \<not> op_lt ops x (op_add ops (last (prev # xs)) inc)"
  by (induction xs arbitrary: prev) auto



lemma tracks_fresh:
  "highestBidder a = None \<Longrightarrow> bidHistory a = [] \<Longrightarrow> tracks ops a a"
  by (simp add: tracks_def)

lemma tracks_place_bid:
  assumes "i < length items" and "tracks ops seed (items ! i)"
  shows "tracks ops seed (fst (place_bid ops items sid nc ns data) ! i)"
proof (cases rule: place_bid_store [of ops items sid nc ns data])
  case same
  with assms show ?thesis by simp
next
  case (applied r)
  show ?thesis
  proof (cases "i = r")
    case False
    with assms show ?thesis by (simp add: applied(5))
  next
    case True
    with assms applied(4) show ?thesis
      by (simp add: applied(5) tracks_def climbs_snoc)
  qed
qed

lemma tracks_serve_from:
  "i < length items \<Longrightarrow> tracks ops seed (items ! i) \<Longrightarrow>
   tracks ops seed (serve ops items cs ! i)"
proof (induction cs arbitrary: items)
  case Nil
  then show ?case by simp
next
  case (Cons c cs)
  show ?case
  proof (cases "payload_in c")
    case None
    with Cons.prems show ?thesis by (simp add: serve_Cons_None del: serve.simps)
  next
    case (Some d)
    with Cons.prems show ?thesis
      by (simp add: serve_Cons_Some Cons.IH place_bid_length tracks_place_bid
        del: serve.simps)
  qed
qed

lemma tracks_serve:
  assumes "fresh items" and "i < length items"
  shows "tracks ops (items ! i) (serve ops items cs ! i)"
proof -
  from assms have "tracks ops (items ! i) (items ! i)"
    by (simp add: fresh_def list_all_length tracks_fresh)
  with assms(2) show ?thesis by (rule tracks_serve_from)
qed

lemma tracks_currentBid:
  "tracks ops seed a \<Longrightarrow>
   currentBid a = (if bidHistory a = [] then currentBid seed else amount (last (bidHistory a)))"
  by (simp add: tracks_def last_map)

lemma tracks_highestBidder:
  "tracks ops seed a \<Longrightarrow>
   highestBidder a = (if bidHistory a = [] then None else Some (bidder (last (bidHistory a))))"
  by (simp add: tracks_def last_map)

subsection \<open>Where a history entry comes from\<close>

lemma place_bid_history:
  assumes "i < length items"
  shows "bidHistory (fst (place_bid ops items sid nc ns data) ! i) = bidHistory (items ! i) \<or>
         (findRef (\<lambda>item. id' item = auctionId data) items = Some i \<and>
          nc < endTime (items ! i) \<and>
          \<not> op_lt ops (bidAmount data)
              (op_add ops (currentBid (items ! i)) (minimumIncrement (items ! i))) \<and>
          bidHistory (fst (place_bid ops items sid nc ns data) ! i) =
            bidHistory (items ! i) @
              [\<lparr>amount = bidAmount data, bidder = orElse (bidderName data) sid,
                timestamp = ns\<rparr>])"
proof (cases rule: place_bid_store [of ops items sid nc ns data])
  case same
  then show ?thesis by simp
next
  case (applied r)
  show ?thesis
  proof (cases "i = r")
    case False
    with assms show ?thesis by (simp add: applied(5))
  next
    case True
    with assms applied(1,3,4) show ?thesis by (simp add: applied(5))
  qed
qed

lemma serve_history_kept:
  "i < length items \<Longrightarrow> k < length (bidHistory (items ! i)) \<Longrightarrow>
   k < length (bidHistory (serve ops items cs ! i)) \<and>
   bidHistory (serve ops items cs ! i) ! k = bidHistory (items ! i) ! k"
proof (induction cs arbitrary: items)
  case Nil
  then show ?case by simp
next
  case (Cons c cs)
  show ?case
  proof (cases "payload_in c")
    case None
    with Cons.prems show ?thesis by (simp add: serve_Cons_None del: serve.simps)
  next
    case (Some d)
    let ?items' = "fst (place_bid ops items (socket_id c) (now_check c) (now_stamp c) d)"
    have len: "i < length ?items'" using Cons.prems(1) by (simp add: place_bid_length)
    from place_bid_history [OF Cons.prems(1), of ops "socket_id c" "now_check c" "now_stamp c" d]
      Cons.prems(2)
    have kept: "k < length (bidHistory (?items' ! i))"
      "bidHistory (?items' ! i) ! k = bidHistory (items ! i) ! k"
      by (auto simp: nth_append)
    from Cons.IH [OF len kept(1)] kept(2) Some show ?thesis
      by (simp add: serve_Cons_Some del: serve.simps)
  qed
qed

lemma appended_by:
  assumes "i < length items"
    and "k < length (bidHistory (serve ops items cs ! i))"
    and "length (bidHistory (items ! i)) \<le> k"
  shows "\<exists>pre c d post.
           cs = pre @ c # post \<and> payload_in c = Some d \<and>
           findRef (\<lambda>item. id' item = auctionId d) (serve ops items pre) = Some i \<and>
           now_check c < endTime (items ! i) \<and>
           \<not> op_lt ops (bidAmount d)
               (op_add ops (currentBid (serve ops items pre ! i)) (minimumIncrement (items ! i))) \<and>
           length (bidHistory (serve ops items pre ! i)) = k \<and>
           bidHistory (serve ops items cs ! i) ! k =
             \<lparr>amount = bidAmount d, bidder = orElse (bidderName d) (socket_id c),
              timestamp = now_stamp c\<rparr>"
  using assms
proof (induction cs arbitrary: items)
  case Nil
  then show ?case by simp
next
  case (Cons c cs)
  show ?case
  proof (cases "payload_in c")
    case None
    with Cons.prems show ?thesis by (simp add: serve_Cons_None del: serve.simps)
  next
    case (Some d)
    let ?items' = "fst (place_bid ops items (socket_id c) (now_check c) (now_stamp c) d)"
    have len: "i < length ?items'" using Cons.prems(1) by (simp add: place_bid_length)
    have sv: "serve ops items (c # cs) = serve ops ?items' cs"
      using Some by (rule serve_Cons_Some)
    have fixed: "endTime (?items' ! i) = endTime (items ! i)"
      "minimumIncrement (?items' ! i) = minimumIncrement (items ! i)"
      using Cons.prems(1) by (simp_all add: place_bid_fixed)
    show ?thesis
    proof (cases "length (bidHistory (?items' ! i)) \<le> k")
      case True
      from Cons.prems(2) have "k < length (bidHistory (serve ops ?items' cs ! i))"
        unfolding sv .
      from Cons.IH [OF len this True] obtain pre c' d' post where
        p: "cs = pre @ c' # post" "payload_in c' = Some d'"
          "findRef (\<lambda>item. id' item = auctionId d') (serve ops ?items' pre) = Some i"
          "now_check c' < endTime (?items' ! i)"
          "\<not> op_lt ops (bidAmount d')
              (op_add ops (currentBid (serve ops ?items' pre ! i)) (minimumIncrement (?items' ! i)))"
          "length (bidHistory (serve ops ?items' pre ! i)) = k"
          "bidHistory (serve ops ?items' cs ! i) ! k =
             \<lparr>amount = bidAmount d', bidder = orElse (bidderName d') (socket_id c'),
              timestamp = now_stamp c'\<rparr>"
        by blast
      have sp: "serve ops items (c # pre) = serve ops ?items' pre"
        using Some by (rule serve_Cons_Some)
      have "c # cs = (c # pre) @ c' # post" using p(1) by simp
      with p(2-7) show ?thesis
        unfolding sv sp [symmetric] fixed by blast
    next
      case False
      with Cons.prems(3)
      have grown: "bidHistory (?items' ! i) \<noteq> bidHistory (items ! i)" by auto
      with place_bid_history [OF Cons.prems(1), of ops "socket_id c" "now_check c" "now_stamp c" d]
      have a: "findRef (\<lambda>item. id' item = auctionId d) items = Some i"
        "now_check c < endTime (items ! i)"
        "\<not> op_lt ops (bidAmount d)
            (op_add ops (currentBid (items ! i)) (minimumIncrement (items ! i)))"
        "bidHistory (?items' ! i) = bidHistory (items ! i) @
            [\<lparr>amount = bidAmount d, bidder = orElse (bidderName d) (socket_id c),
              timestamp = now_stamp c\<rparr>]"
        by blast+
      from a(4) False Cons.prems(3) have k: "length (bidHistory (items ! i)) = k" by simp
      with a(4) have kk: "k < length (bidHistory (?items' ! i))"
        "bidHistory (?items' ! i) ! k =
           \<lparr>amount = bidAmount d, bidder = orElse (bidderName d) (socket_id c),
            timestamp = now_stamp c\<rparr>"
        by (auto simp: nth_append)
      from serve_history_kept [OF len kk(1), of ops cs] kk(2)
      have e: "bidHistory (serve ops items (c # cs) ! i) ! k =
           \<lparr>amount = bidAmount d, bidder = orElse (bidderName d) (socket_id c),
            timestamp = now_stamp c\<rparr>"
        unfolding sv by simp
      have "c # cs = [] @ c # cs" by simp
      moreover have "serve ops items [] = items" by simp
      ultimately show ?thesis
        using Some a(1-3) k e by metis
    qed
  qed
qed

subsection \<open>Lookups after calls, and bids of integer amounts\<close>

lemma findRef_ids:
  "map id' xs = map id' ys \<Longrightarrow>
   findRef (\<lambda>item. id' item = a) xs = findRef (\<lambda>item. id' item = a) ys"
proof (induction xs arbitrary: ys)
  case Nil
  then show ?case by simp
next
  case (Cons x xs)
  then obtain y ys' where ys: "ys = y # ys'" by (cases ys) auto
  with Cons.prems have "id' x = id' y" "map id' xs = map id' ys'" by simp_all
  with Cons.IH [of ys'] ys show ?case by simp
qed

lemma serve_ids: "map id' (serve ops items cs) = map id' items"
  by (rule nth_equalityI) (simp_all add: serve_length serve_fixed)

lemma findRef_serve:
  "findRef (\<lambda>item. id' item = a) (serve ops items cs) = findRef (\<lambda>item. id' item = a) items"
  by (rule findRef_ids) (rule serve_ids)

lemma serve_single:
  "serve ops items [c] =
     (case payload_in c of None \<Rightarrow> items
      | Some d \<Rightarrow> fst (place_bid ops items (socket_id c) (now_check c) (now_stamp c) d))"
  by (simp add: handle_def on_place_bid_def split: option.splits)


lemma place_bid_js_num:
  assumes "findRef (\<lambda>item. id' item = auctionId data) items = Some r"
    and "nc < endTime (items ! r)"
    and "currentBid (items ! r) = num c" and "minimumIncrement (items ! r) = num i"
    and "bidAmount data = num b" and "\<bar>c + i\<bar> < 2 ^ 53"
  shows "b < c + i \<Longrightarrow>
           place_bid js items sid nc ns data =
             (items,
              [SocketEmit (BidError (Template ''Bid must be at least $'' (num (c + i)))
                 (auctionId data) (Some (num (c + i))))])"
    and "c + i \<le> b \<Longrightarrow>
           place_bid js items sid nc ns data =
             (items[r := (items ! r)
                \<lparr>currentBid := num b,
                 highestBidder := Some (orElse (bidderName data) sid),
                 bidHistory := bidHistory (items ! r) @
                   [\<lparr>amount = num b, bidder = orElse (bidderName data) sid,
                     timestamp = ns\<rparr>]\<rparr>],
              [IoEmit (AuctionUpdate (auctionId data) (num b)
                 (Some (orElse (bidderName data) sid))
                 (bidHistory (items ! r) @
                   [\<lparr>amount = num b, bidder = orElse (bidderName data) sid,
                     timestamp = ns\<rparr>])),
               SocketEmit (BidSuccess (auctionId data) (num b))])"
proof -
  have sum: "op_add js (currentBid (items ! r)) (minimumIncrement (items ! r)) = num (c + i)"
    using assms(3,4,6) by (simp add: js_ops js_add_num)
  have lt: "op_lt js (num b) (num (c + i)) \<longleftrightarrow> b < c + i"
    by (simp add: js_ops js_lt_num)
  show "b < c + i \<Longrightarrow>
           place_bid js items sid nc ns data =
             (items,
              [SocketEmit (BidError (Template ''Bid must be at least $'' (num (c + i)))
                 (auctionId data) (Some (num (c + i))))])"
    using place_bid_too_low [OF assms(1,2), of js sid ns] assms(5) by (simp add: sum lt)
  show "c + i \<le> b \<Longrightarrow>
           place_bid js items sid nc ns data =
             (items[r := (items ! r)
                \<lparr>currentBid := num b,
                 highestBidder := Some (orElse (bidderName data) sid),
                 bidHistory := bidHistory (items ! r) @
                   [\<lparr>amount = num b, bidder = orElse (bidderName data) sid,
                     timestamp = ns\<rparr>]\<rparr>],
              [IoEmit (AuctionUpdate (auctionId data) (num b)
                 (Some (orElse (bidderName data) sid))
                 (bidHistory (items ! r) @
                   [\<lparr>amount = num b, bidder = orElse (bidderName data) sid,
                     timestamp = ns\<rparr>])),
               SocketEmit (BidSuccess (auctionId data) (num b))])"
    using place_bid_applied [OF assms(1,2), of js sid ns] assms(5) by (simp add: sum lt)
qed

lemma seed_first_bid:
  assumes "nc < t1 + 900000" and "160 \<le> b"
  shows "serve js (auctionItems t1 t2 t3 t4)
           [\<lparr>socket_id = sid, now_check = nc, now_stamp = ns,
             payload_in = Some \<lparr>auctionId = 1, bidAmount = num b, bidderName = n\<rparr>\<rparr>] ! 0 =
         (auctionItems t1 t2 t3 t4 ! 0)
           \<lparr>currentBid := num b, highestBidder := Some (orElse n sid),
            bidHistory := [\<lparr>amount = num b, bidder = orElse n sid, timestamp = ns\<rparr>]\<rparr>"
proof -
  let ?d = "\<lparr>auctionId = 1, bidAmount = num b, bidderName = n\<rparr>"
  have f: "findRef (\<lambda>item. id' item = auctionId ?d) (auctionItems t1 t2 t3 t4) = Some 0"
    by (simp add: auctionItems_def)
  have e: "nc < endTime (auctionItems t1 t2 t3 t4 ! 0)"
    using assms(1) by (simp add: auctionItems_def)
  have v: "currentBid (auctionItems t1 t2 t3 t4 ! 0) = num 150"
    "minimumIncrement (auctionItems t1 t2 t3 t4 ! 0) = num 10"
    "bidAmount ?d = num b" "\<bar>150 + 10 :: int\<bar> < 2 ^ 53"
    "bidHistory (auctionItems t1 t2 t3 t4 ! 0) = []"
    "0 < length (auctionItems t1 t2 t3 t4)"
    by (simp_all add: auctionItems_def)
  from assms(2) have "150 + 10 \<le> b" by simp
  from place_bid_js_num(2) [OF f e v(1-4) this, of sid ns] v(5,6)
  show ?thesis by (simp add: serve_single del: serve.simps)
qed

lemma place_bid_ids: "map id' (fst (place_bid ops items sid nc ns data)) = map id' items"
  by (rule nth_equalityI) (simp_all add: place_bid_length place_bid_fixed)

lemma findRef_place_bid:
  "findRef (\<lambda>item. id' item = a) (fst (place_bid ops items sid nc ns data)) =
   findRef (\<lambda>item. id' item = a) items"
  by (rule findRef_ids) (rule place_bid_ids)

lemma seed_lamp_bid:
  assumes "nc < t4 + 1800000" and "85 \<le> b"
  shows "serve js (auctionItems t1 t2 t3 t4)
           [\<lparr>socket_id = sid, now_check = nc, now_stamp = ns,
             payload_in = Some \<lparr>auctionId = 4, bidAmount = num b, bidderName = n\<rparr>\<rparr>] ! 3 =
         (auctionItems t1 t2 t3 t4 ! 3)
           \<lparr>currentBid := num b, highestBidder := Some (orElse n sid),
            bidHistory := [\<lparr>amount = num b, bidder = orElse n sid, timestamp = ns\<rparr>]\<rparr>"
proof -
  let ?d = "\<lparr>auctionId = 4, bidAmount = num b, bidderName = n\<rparr>"
  have f: "findRef (\<lambda>item. id' item = auctionId ?d) (auctionItems t1 t2 t3 t4) = Some 3"
    by (simp add: auctionItems_def)
  have e: "nc < endTime (auctionItems t1 t2 t3 t4 ! 3)"
    using assms(1) by (simp add: auctionItems_def)
  have v: "currentBid (auctionItems t1 t2 t3 t4 ! 3) = num 80"
    "minimumIncrement (auctionItems t1 t2 t3 t4 ! 3) = num 5"
    "bidAmount ?d = num b" "\<bar>80 + 5 :: int\<bar> < 2 ^ 53"
    "bidHistory (auctionItems t1 t2 t3 t4 ! 3) = []"
    "3 < length (auctionItems t1 t2 t3 t4)"
    by (simp_all add: auctionItems_def)
  from assms(2) have "80 + 5 \<le> b" by simp
  from place_bid_js_num(2) [OF f e v(1-4) this, of sid ns] v(5,6)
  show ?thesis by (simp add: serve_single del: serve.simps)
qed

subsection \<open>Integer amounts without rounding\<close>

lemma num_inject [simp]: "num a = num b \<longleftrightarrow> a = b"
  by (simp add: num_def)








section \<open>One request\<close>

text \<open>
  Claim C8. When no auction in the store has the requested \<open>auctionId\<close>, the handler
  leaves the whole store as it is and sends exactly one event, \<open>bid-error\<close> with the
  message "Auction not found" and no \<open>minimumBid\<close>, through \<open>socket.emit\<close>, that is to the
  submitter only. The amount (any value), the bidder name, the connection and both clock
  readings are arbitrary.
\<close>

theorem not_found_rejected:
  assumes "\<forall>a\<in>set items. id' a \<noteq> auctionId data"
  shows "place_bid ops items sid nc ns data =
           (items, [SocketEmit (BidError (Text ''Auction not found'') (auctionId data) None)])"
proof -
  from assms have "findRef (\<lambda>item. id' item = auctionId data) items = None"
    by (simp add: findRef_None)
  then show ?thesis by (rule place_bid_not_found)
qed

theorem not_found_rejected_witness:
  "list_all (\<lambda>a. id' a \<noteq> 9) (auctionItems 0 0 0 0) \<and>
   place_bid js (auctionItems 0 0 0 0) ''s1'' 5 6
     \<lparr>auctionId = 9, bidAmount = num 1000, bidderName = Some ''Eve''\<rparr> =
     (auctionItems 0 0 0 0, [SocketEmit (BidError (Text ''Auction not found'') 9 None)])"
proof -
  let ?d = "\<lparr>auctionId = 9, bidAmount = num 1000, bidderName = Some ''Eve''\<rparr>"
  have h: "list_all (\<lambda>a. id' a \<noteq> 9) (auctionItems 0 0 0 0)"
    by (simp add: auctionItems_def)
  then have h': "\<forall>a\<in>set (auctionItems 0 0 0 0). id' a \<noteq> auctionId ?d"
    by (simp add: list_all_iff)
  from not_found_rejected [OF h', of js "''s1''" 5 6] h show ?thesis by simp
qed

text \<open>
  Claim C2. When the request resolves to an auction and the clock reading of the deadline
  check is at or past that auction's \<open>endTime\<close>, the handler leaves the store as it is and
  sends the submitter the single error "Auction has ended", whatever the amount and
  whatever the state of the auction.
\<close>

theorem ended_rejected:
  assumes "findRef (\<lambda>item. id' item = auctionId data) items = Some r"
    and "endTime (items ! r) \<le> nc"
  shows "place_bid ops items sid nc ns data =
           (items, [SocketEmit (BidError (Text ''Auction has ended'') (auctionId data) None)])"
  using assms by (rule place_bid_ended)

theorem ended_rejected_witness:
  "findRef (\<lambda>item. id' item = auctionId \<lparr>auctionId = 1, bidAmount = num 100000, bidderName = Some ''Eve''\<rparr>) (auctionItems 0 0 0 0) = Some 0 \<and>
   endTime (auctionItems 0 0 0 0 ! 0) \<le> 900000 \<and>
   place_bid js (auctionItems 0 0 0 0) ''s1'' 900000 900000 \<lparr>auctionId = 1, bidAmount = num 100000, bidderName = Some ''Eve''\<rparr> =
     (auctionItems 0 0 0 0, [SocketEmit (BidError (Text ''Auction has ended'') 1 None)])"
proof -
  have f: "findRef (\<lambda>item. id' item = auctionId \<lparr>auctionId = 1, bidAmount = num 100000, bidderName = Some ''Eve''\<rparr>) (auctionItems 0 0 0 0) = Some 0"
    by (simp add: auctionItems_def)
  have e: "endTime (auctionItems 0 0 0 0 ! 0) \<le> 900000"
    by (simp add: auctionItems_def)
  from ended_rejected [OF f e, of js "''s1''" 900000] f e show ?thesis by simp
qed

text \<open>
  Claim C3 as stated, with the sum \<open>currentBid + minimumIncrement\<close> read as the exact sum,
  fails. After a bid of \<open>2 ^ 53 = 9007199254740992\<close> on auction 4, whose increment is 5,
  the handler computes the minimum as the double nearest to \<open>2 ^ 53 + 5\<close>, which is
  \<open>2 ^ 53 + 4\<close>; a bid of \<open>9007199254740996\<close> is below the exact sum and is accepted.
\<close>

theorem rounded_sum_counterexample:
  "currentBid (serve js (auctionItems 0 0 0 0)
      [\<lparr>socket_id = ''s1'', now_check = 5, now_stamp = 5,
        payload_in = Some \<lparr>auctionId = 4, bidAmount = num 9007199254740992,
          bidderName = Some ''A''\<rparr>\<rparr>] ! 3) = num 9007199254740992 \<and>
   minimumIncrement (serve js (auctionItems 0 0 0 0)
      [\<lparr>socket_id = ''s1'', now_check = 5, now_stamp = 5,
        payload_in = Some \<lparr>auctionId = 4, bidAmount = num 9007199254740992,
          bidderName = Some ''A''\<rparr>\<rparr>] ! 3) = num 5 \<and>
   (9007199254740996 :: int) < 9007199254740992 + 5 \<and>
   accepted (snd (place_bid js
     (serve js (auctionItems 0 0 0 0)
        [\<lparr>socket_id = ''s1'', now_check = 5, now_stamp = 5,
          payload_in = Some \<lparr>auctionId = 4, bidAmount = num 9007199254740992,
            bidderName = Some ''A''\<rparr>\<rparr>])
     ''s2'' 6 6
     \<lparr>auctionId = 4, bidAmount = num 9007199254740996, bidderName = Some ''B''\<rparr>))"
proof -
  let ?c = "\<lparr>socket_id = ''s1'', now_check = 5, now_stamp = 5,
        payload_in = Some \<lparr>auctionId = 4, bidAmount = num 9007199254740992,
          bidderName = Some ''A''\<rparr>\<rparr>"
  let ?S = "serve js (auctionItems 0 0 0 0) [?c]"
  let ?d = "\<lparr>auctionId = 4, bidAmount = num 9007199254740996, bidderName = Some ''B''\<rparr>"
  have a: "?S ! 3 = (auctionItems 0 0 0 0 ! 3)
           \<lparr>currentBid := num 9007199254740992, highestBidder := Some ''A'',
            bidHistory := [\<lparr>amount = num 9007199254740992, bidder = ''A'', timestamp = 5\<rparr>]\<rparr>"
    using seed_lamp_bid [of 5 0 9007199254740992 0 0 0 "''s1''" 5 "Some ''A''"] by simp
  have cur: "currentBid (?S ! 3) = num 9007199254740992" unfolding a by simp
  have inc: "minimumIncrement (?S ! 3) = num 5" unfolding a by (simp add: auctionItems_def)
  have e: "6 < endTime (?S ! 3)" unfolding a by (simp add: auctionItems_def)
  have f: "findRef (\<lambda>item. id' item = auctionId ?d) ?S = Some 3"
    unfolding findRef_serve by (simp add: auctionItems_def)
  have ok: "\<not> op_lt js (bidAmount ?d) (op_add js (currentBid (?S ! 3)) (minimumIncrement (?S ! 3)))"
    unfolding cur inc by (simp add: js_ops js_add_above_2p53 js_lt_num)
  have "accepted (snd (place_bid js ?S ''s2'' 6 6 ?d))"
    unfolding accepted_iff using f e ok by blast
  with cur inc show ?thesis by simp
qed

text \<open>
  Claim C3, amended. For a request that resolves to an auction whose deadline check
  passes, let \<open>minimumAcceptable\<close> be the value of \<open>currentBid + minimumIncrement\<close> as the
  handler computes it with the runtime's \<open>+\<close>. The handler answers with the too-low error
  carrying \<open>minimumAcceptable\<close> as \<open>minimumBid\<close>, and leaves the store, exactly when
  \<open>bidAmount < minimumAcceptable\<close> evaluates to true; it accepts exactly when not; and a bid
  equal to \<open>minimumAcceptable\<close> is accepted and becomes the current bid whenever that value
  is not less than itself, as no number, \<open>undefined\<close>, \<open>null\<close> or boolean is. Any \<open>bid-error\<close>
  that has a \<open>minimumBid\<close> comes from that price check and carries that value; the errors
  for an unknown auction and for an ended auction have none. When the price, the increment
  and the amount are integers and the exact sum of price and increment is strictly within
  \<open>2 ^ 53\<close>, the computed minimum is the exact sum and the comparison is that of the
  integers.
\<close>

theorem price_check:
  "(\<forall>r. findRef (\<lambda>item. id' item = auctionId data) items = Some r \<and> nc < endTime (items ! r) \<longrightarrow>
      (let minimumAcceptable = op_add ops (currentBid (items ! r)) (minimumIncrement (items ! r)) in
         (place_bid ops items sid nc ns data =
            (items,
             [SocketEmit (BidError (Template ''Bid must be at least $'' minimumAcceptable)
                (auctionId data) (Some minimumAcceptable))])
          \<longleftrightarrow> op_lt ops (bidAmount data) minimumAcceptable) \<and>
         (accepted (snd (place_bid ops items sid nc ns data))
          \<longleftrightarrow> \<not> op_lt ops (bidAmount data) minimumAcceptable) \<and>
         (bidAmount data = minimumAcceptable \<and>
          \<not> op_lt ops minimumAcceptable minimumAcceptable \<longrightarrow>
            accepted (snd (place_bid ops items sid nc ns data)) \<and>
            currentBid (fst (place_bid ops items sid nc ns data) ! r) = minimumAcceptable))) \<and>
   (\<forall>e\<in>set (snd (place_bid ops items sid nc ns data)). \<forall>m a mb.
      e = SocketEmit (BidError m a (Some mb)) \<or> e = IoEmit (BidError m a (Some mb)) \<longrightarrow>
      (\<exists>r. findRef (\<lambda>item. id' item = auctionId data) items = Some r \<and>
           nc < endTime (items ! r) \<and>
           op_lt ops (bidAmount data)
             (op_add ops (currentBid (items ! r)) (minimumIncrement (items ! r))) \<and>
           mb = op_add ops (currentBid (items ! r)) (minimumIncrement (items ! r)))) \<and>
   (findRef (\<lambda>item. id' item = auctionId data) items = None \<longrightarrow>
      snd (place_bid ops items sid nc ns data) =
        [SocketEmit (BidError (Text ''Auction not found'') (auctionId data) None)]) \<and>
   (\<forall>r. findRef (\<lambda>item. id' item = auctionId data) items = Some r \<and> endTime (items ! r) \<le> nc \<longrightarrow>
      snd (place_bid ops items sid nc ns data) =
        [SocketEmit (BidError (Text ''Auction has ended'') (auctionId data) None)]) \<and>
   (\<forall>v. \<not> op_lt js v v) \<and>
   (\<forall>r c i b.
      findRef (\<lambda>item. id' item = auctionId jdata) jitems = Some r \<and> nc < endTime (jitems ! r) \<and>
      currentBid (jitems ! r) = num c \<and> minimumIncrement (jitems ! r) = num i \<and>
      bidAmount jdata = num b \<and> \<bar>c + i\<bar> < 2 ^ 53 \<longrightarrow>
        (place_bid js jitems sid nc ns jdata =
           (jitems,
            [SocketEmit (BidError (Template ''Bid must be at least $'' (num (c + i)))
               (auctionId jdata) (Some (num (c + i))))])
         \<longleftrightarrow> b < c + i) \<and>
        (accepted (snd (place_bid js jitems sid nc ns jdata)) \<longleftrightarrow> c + i \<le> b))"
proof (intro conjI allI impI ballI)
  fix r
  assume h: "findRef (\<lambda>item. id' item = auctionId data) items = Some r \<and> nc < endTime (items ! r)"
  then have len: "r < length items" by (auto dest: findRef_Some)
  show "let minimumAcceptable = op_add ops (currentBid (items ! r)) (minimumIncrement (items ! r)) in
         (place_bid ops items sid nc ns data =
            (items,
             [SocketEmit (BidError (Template ''Bid must be at least $'' minimumAcceptable)
                (auctionId data) (Some minimumAcceptable))])
          \<longleftrightarrow> op_lt ops (bidAmount data) minimumAcceptable) \<and>
         (accepted (snd (place_bid ops items sid nc ns data))
          \<longleftrightarrow> \<not> op_lt ops (bidAmount data) minimumAcceptable) \<and>
         (bidAmount data = minimumAcceptable \<and>
          \<not> op_lt ops minimumAcceptable minimumAcceptable \<longrightarrow>
            accepted (snd (place_bid ops items sid nc ns data)) \<and>
            currentBid (fst (place_bid ops items sid nc ns data) ! r) = minimumAcceptable)"
  proof (cases "op_lt ops (bidAmount data)
      (op_add ops (currentBid (items ! r)) (minimumIncrement (items ! r)))")
    case True
    with h show ?thesis
      by (auto simp: place_bid_too_low accepted_def Let_def)
  next
    case False
    with h len show ?thesis
      by (simp add: place_bid_applied accepted_def Let_def)
  qed
next
  fix e m a mb
  assume "e \<in> set (snd (place_bid ops items sid nc ns data))"
    and "e = SocketEmit (BidError m a (Some mb)) \<or> e = IoEmit (BidError m a (Some mb))"
  then show "\<exists>r. findRef (\<lambda>item. id' item = auctionId data) items = Some r \<and>
           nc < endTime (items ! r) \<and>
           op_lt ops (bidAmount data)
             (op_add ops (currentBid (items ! r)) (minimumIncrement (items ! r))) \<and>
           mb = op_add ops (currentBid (items ! r)) (minimumIncrement (items ! r))"
    by (auto simp: place_bid_def Let_def split: option.splits if_splits)
next
  assume "findRef (\<lambda>item. id' item = auctionId data) items = None"
  then show "snd (place_bid ops items sid nc ns data) =
        [SocketEmit (BidError (Text ''Auction not found'') (auctionId data) None)]"
    by (simp add: place_bid_not_found)
next
  fix r
  assume "findRef (\<lambda>item. id' item = auctionId data) items = Some r \<and> endTime (items ! r) \<le> nc"
  then show "snd (place_bid ops items sid nc ns data) =
        [SocketEmit (BidError (Text ''Auction has ended'') (auctionId data) None)]"
    by (simp add: place_bid_ended)
next
  fix v
  show "\<not> op_lt js v v" by (simp add: js_ops js_lt_irrefl)
next
  fix r c i b
  assume h: "findRef (\<lambda>item. id' item = auctionId jdata) jitems = Some r \<and> nc < endTime (jitems ! r) \<and>
      currentBid (jitems ! r) = num c \<and> minimumIncrement (jitems ! r) = num i \<and>
      bidAmount jdata = num b \<and> \<bar>c + i\<bar> < 2 ^ 53"
  then have a: "findRef (\<lambda>item. id' item = auctionId jdata) jitems = Some r"
    "nc < endTime (jitems ! r)" "currentBid (jitems ! r) = num c"
    "minimumIncrement (jitems ! r) = num i" "bidAmount jdata = num b" "\<bar>c + i\<bar> < 2 ^ 53"
    by simp_all
  from a(1) have len: "r < length jitems" by (auto dest: findRef_Some)
  show "place_bid js jitems sid nc ns jdata =
           (jitems,
            [SocketEmit (BidError (Template ''Bid must be at least $'' (num (c + i)))
               (auctionId jdata) (Some (num (c + i))))])
         \<longleftrightarrow> b < c + i"
  proof (cases "b < c + i")
    case True
    with place_bid_js_num(1) [OF a, of sid ns] show ?thesis by simp
  next
    case False
    then have "c + i \<le> b" by simp
    from place_bid_js_num(2) [OF a this, of sid ns] False show ?thesis by simp
  qed
  show "accepted (snd (place_bid js jitems sid nc ns jdata)) \<longleftrightarrow> c + i \<le> b"
  proof (cases "b < c + i")
    case True
    with place_bid_js_num(1) [OF a, of sid ns] show ?thesis by (simp add: accepted_def)
  next
    case False
    then have "c + i \<le> b" by simp
    from place_bid_js_num(2) [OF a this, of sid ns] this show ?thesis
      by (simp add: accepted_def)
  qed
qed

theorem price_check_witness:
  "findRef (\<lambda>item. id' item = auctionId \<lparr>auctionId = 1, bidAmount = num 155, bidderName = Some ''B''\<rparr>)
     (auctionItems 0 0 0 0) = Some 0 \<and>
   5 < endTime (auctionItems 0 0 0 0 ! 0) \<and>
   currentBid (auctionItems 0 0 0 0 ! 0) = num 150 \<and>
   minimumIncrement (auctionItems 0 0 0 0 ! 0) = num 10 \<and>
   place_bid js (auctionItems 0 0 0 0) ''s2'' 5 6
      \<lparr>auctionId = 1, bidAmount = num 155, bidderName = Some ''B''\<rparr> =
     (auctionItems 0 0 0 0,
      [SocketEmit (BidError (Template ''Bid must be at least $'' (num 160)) 1 (Some (num 160)))]) \<and>
   \<not> accepted (snd (place_bid js (auctionItems 0 0 0 0) ''s2'' 5 6
        \<lparr>auctionId = 1, bidAmount = num 155, bidderName = Some ''B''\<rparr>))"
proof -
  let ?d = "\<lparr>auctionId = 1, bidAmount = num 155, bidderName = Some ''B''\<rparr>"
  have f: "findRef (\<lambda>item. id' item = auctionId ?d) (auctionItems 0 0 0 0) = Some 0"
    by (simp add: auctionItems_def)
  have e: "5 < endTime (auctionItems 0 0 0 0 ! 0)"
    by (simp add: auctionItems_def)
  have v: "currentBid (auctionItems 0 0 0 0 ! 0) = num 150"
    "minimumIncrement (auctionItems 0 0 0 0 ! 0) = num 10"
    by (simp_all add: auctionItems_def)
  have b: "bidAmount ?d = num 155" "\<bar>150 + 10 :: int\<bar> < 2 ^ 53" by simp_all
  have h: "findRef (\<lambda>item. id' item = auctionId ?d) (auctionItems 0 0 0 0) = Some 0 \<and>
      5 < endTime (auctionItems 0 0 0 0 ! 0) \<and>
      currentBid (auctionItems 0 0 0 0 ! 0) = num 150 \<and>
      minimumIncrement (auctionItems 0 0 0 0 ! 0) = num 10 \<and>
      bidAmount ?d = num 155 \<and> \<bar>150 + 10 :: int\<bar> < 2 ^ 53"
    using f e v b by blast
  note P = price_check [where jdata = ?d and jitems = "auctionItems 0 0 0 0" and nc = 5
      and sid = "''s2''" and ns = 6 and ops = js and items = "auctionItems 0 0 0 0"
      and data = ?d]
  note J = P [THEN conjunct2, THEN conjunct2, THEN conjunct2, THEN conjunct2, THEN conjunct2,
      rule_format, OF h]
  note G = P [THEN conjunct1, rule_format, OF conjI [OF f e], unfolded Let_def]
  from J [THEN conjunct1]
  have r: "place_bid js (auctionItems 0 0 0 0) ''s2'' 5 6 ?d =
     (auctionItems 0 0 0 0,
      [SocketEmit (BidError (Template ''Bid must be at least $'' (num 160)) 1 (Some (num 160)))])"
    by simp
  have s: "js_add (num 150) (num 10) = num 160"
    using js_add_num [of 150 10] by simp
  from G [THEN conjunct2, THEN conjunct1]
  have n: "\<not> accepted (snd (place_bid js (auctionItems 0 0 0 0) ''s2'' 5 6 ?d))"
    by (simp add: js_ops v s js_lt_num)
  from f e v r n show ?thesis by blast
qed

text \<open>
  Claim C7. If a request was answered with the too-low error, the store is the one before
  the request, the hint is the computed \<open>currentBid + minimumIncrement\<close>, and the same
  request sent again on that store, with a second pair of clock readings still before the
  deadline, gets the same answer with the same hint and again leaves the store as it is.
\<close>

theorem rejection_idempotent:
  assumes found: "findRef (\<lambda>item. id' item = auctionId data) items = Some r"
    and first: "place_bid ops items sid nc ns data =
                  (items', [SocketEmit (BidError m a (Some mb))])"
    and still: "nc' < endTime (items ! r)"
  shows "items' = items \<and>
         mb = op_add ops (currentBid (items ! r)) (minimumIncrement (items ! r)) \<and>
         place_bid ops items' sid nc' ns' data =
           (items', [SocketEmit (BidError m a (Some mb))])"
proof -
  from found first have low:
    "op_lt ops (bidAmount data)
       (op_add ops (currentBid (items ! r)) (minimumIncrement (items ! r)))"
    and same: "items' = items"
    and hint: "mb = op_add ops (currentBid (items ! r)) (minimumIncrement (items ! r))"
    and msg: "m = Template ''Bid must be at least $'' mb" and aid: "a = auctionId data"
    by (auto simp: place_bid_def Let_def split: if_splits)
  from place_bid_too_low [OF found still low, of sid ns'] same hint msg aid
  show ?thesis by simp
qed

theorem rejection_idempotent_witness:
  "findRef (\<lambda>item. id' item = auctionId \<lparr>auctionId = 4, bidAmount = num 84, bidderName = None\<rparr>)
     (auctionItems 0 0 0 0) = Some 3 \<and>
   place_bid js (auctionItems 0 0 0 0) ''s2'' 5 6 \<lparr>auctionId = 4, bidAmount = num 84, bidderName = None\<rparr> =
     (auctionItems 0 0 0 0,
      [SocketEmit (BidError (Template ''Bid must be at least $'' (num 85)) 4 (Some (num 85)))]) \<and>
   70 < endTime (auctionItems 0 0 0 0 ! 3) \<and>
   place_bid js (auctionItems 0 0 0 0) ''s2'' 70 71 \<lparr>auctionId = 4, bidAmount = num 84, bidderName = None\<rparr> =
     (auctionItems 0 0 0 0,
      [SocketEmit (BidError (Template ''Bid must be at least $'' (num 85)) 4 (Some (num 85)))])"
proof -
  let ?d = "\<lparr>auctionId = 4, bidAmount = num 84, bidderName = None\<rparr>"
  have f: "findRef (\<lambda>item. id' item = auctionId ?d) (auctionItems 0 0 0 0) = Some 3"
    by (simp add: auctionItems_def)
  have e5: "5 < endTime (auctionItems 0 0 0 0 ! 3)"
    by (simp add: auctionItems_def)
  have v: "currentBid (auctionItems 0 0 0 0 ! 3) = num 80"
    "minimumIncrement (auctionItems 0 0 0 0 ! 3) = num 5"
    by (simp_all add: auctionItems_def)
  have s: "js_add (num 80) (num 5) = num 85"
    using js_add_num [of 80 5] by simp
  have low: "op_lt js (bidAmount ?d)
     (op_add js (currentBid (auctionItems 0 0 0 0 ! 3))
        (minimumIncrement (auctionItems 0 0 0 0 ! 3)))"
    by (simp add: js_ops v s js_lt_num)
  have p: "place_bid js (auctionItems 0 0 0 0) ''s2'' 5 6 ?d =
     (auctionItems 0 0 0 0,
      [SocketEmit (BidError (Template ''Bid must be at least $'' (num 85)) 4 (Some (num 85)))])"
    using place_bid_too_low [OF f e5 low, of "''s2''" 6] by (simp add: js_ops v s)
  have e: "70 < endTime (auctionItems 0 0 0 0 ! 3)"
    by (simp add: auctionItems_def)
  from rejection_idempotent [OF f p e, of 71] f p e show ?thesis by simp
qed

text \<open>
  Claim C9 as stated fails for a name that is blank without being empty. A bid of 510 on
  auction 2 with the \<open>bidderName\<close> of three spaces, sent on the connection \<open>s2\<close>, is accepted,
  and both \<open>highestBidder\<close> and the bidder of the new history entry are the three spaces,
  not the connection identifier. (The client of the same repository, \<open>App.jsx\<close>, trims the
  name first and so treats such a name as blank; the server does not.)
\<close>

theorem spaces_recorded_counterexample:
  "accepted (snd (place_bid js (auctionItems 0 0 0 0) ''s2'' 5 6
     \<lparr>auctionId = 2, bidAmount = num 510, bidderName = Some ''   ''\<rparr>)) \<and>
   highestBidder (fst (place_bid js (auctionItems 0 0 0 0) ''s2'' 5 6
     \<lparr>auctionId = 2, bidAmount = num 510, bidderName = Some ''   ''\<rparr>) ! 1) = Some ''   '' \<and>
   bidder (last (bidHistory (fst (place_bid js (auctionItems 0 0 0 0) ''s2'' 5 6
     \<lparr>auctionId = 2, bidAmount = num 510, bidderName = Some ''   ''\<rparr>) ! 1))) = ''   '' \<and>
   ''   '' \<noteq> ''s2''"
proof -
  let ?d = "\<lparr>auctionId = 2, bidAmount = num 510, bidderName = Some ''   ''\<rparr>"
  have f: "findRef (\<lambda>item. id' item = auctionId ?d) (auctionItems 0 0 0 0) = Some 1"
    by (simp add: auctionItems_def)
  have e: "5 < endTime (auctionItems 0 0 0 0 ! 1)"
    by (simp add: auctionItems_def)
  have s: "js_add (num 500) (num 10) = num 510"
    using js_add_num [of 500 10] by simp
  have ok: "\<not> op_lt js (bidAmount ?d)
     (op_add js (currentBid (auctionItems 0 0 0 0 ! 1))
        (minimumIncrement (auctionItems 0 0 0 0 ! 1)))"
    by (simp add: js_ops auctionItems_def s js_lt_num)
  have l: "1 < length (auctionItems 0 0 0 0)" by (simp add: auctionItems_def)
  show ?thesis
    using l by (simp add: place_bid_applied [OF f e ok] accepted_def)
qed

text \<open>
  Claim C9, amended. After an accepted bid the auction's \<open>highestBidder\<close> is the bidder of
  the entry just appended to \<open>bidHistory\<close>. When the request's \<open>bidderName\<close> is missing or
  the empty string, that bidder is the connection's \<open>socket.id\<close>; when it is any non-empty
  string, also one of white space only, it is that string.
\<close>

theorem bidder_recorded:
  assumes found: "findRef (\<lambda>item. id' item = auctionId data) items = Some r"
    and acc: "accepted (snd (place_bid ops items sid nc ns data))"
  shows "let a' = fst (place_bid ops items sid nc ns data) ! r in
           bidHistory a' \<noteq> [] \<and>
           highestBidder a' = Some (bidder (last (bidHistory a'))) \<and>
           (bidderName data = None \<or> bidderName data = Some [] \<longrightarrow>
              highestBidder a' = Some sid) \<and>
           (\<forall>n. bidderName data = Some n \<and> n \<noteq> [] \<longrightarrow> highestBidder a' = Some n)"
proof -
  from acc found have ok: "nc < endTime (items ! r)"
    "\<not> op_lt ops (bidAmount data)
       (op_add ops (currentBid (items ! r)) (minimumIncrement (items ! r)))"
    by (auto simp: accepted_iff)
  from found have len: "r < length items" by (auto dest: findRef_Some)
  show ?thesis
    using len by (auto simp: place_bid_applied [OF found ok] Let_def)
qed

theorem bidder_recorded_witness:
  "findRef (\<lambda>item. id' item = auctionId \<lparr>auctionId = 2, bidAmount = num 510, bidderName = Some []\<rparr>)
     (auctionItems 0 0 0 0) = Some 1 \<and>
   accepted (snd (place_bid js (auctionItems 0 0 0 0) ''s2'' 5 6
     \<lparr>auctionId = 2, bidAmount = num 510, bidderName = Some []\<rparr>)) \<and>
   highestBidder (fst (place_bid js (auctionItems 0 0 0 0) ''s2'' 5 6
     \<lparr>auctionId = 2, bidAmount = num 510, bidderName = Some []\<rparr>) ! 1) = Some ''s2''"
proof -
  let ?d = "\<lparr>auctionId = 2, bidAmount = num 510, bidderName = Some []\<rparr>"
  have f: "findRef (\<lambda>item. id' item = auctionId ?d) (auctionItems 0 0 0 0) = Some 1"
    by (simp add: auctionItems_def)
  have s: "js_add (num 500) (num 10) = num 510"
    using js_add_num [of 500 10] by simp
  have a: "accepted (snd (place_bid js (auctionItems 0 0 0 0) ''s2'' 5 6 ?d))"
    by (rule seed_accepts [OF f]) (simp_all add: auctionItems_def s js_lt_num)
  have n: "bidderName ?d = None \<or> bidderName ?d = Some []"
    by simp
  from bidder_recorded [OF f a, unfolded Let_def] n
  have "highestBidder (fst (place_bid js (auctionItems 0 0 0 0) ''s2'' 5 6 ?d) ! 1) = Some ''s2''"
    by blast
  with f a show ?thesis by blast
qed

text \<open>
  Claim C10. Whatever the handler decides, the store keeps its length; every auction keeps
  its \<open>id\<close>, \<open>minimumIncrement\<close> and \<open>endTime\<close>; every auction whose id is not the requested one,
  and every auction other than the one \<open>find\<close> returned, is the same object as before; the
  auction at each position differs from the old one in \<open>currentBid\<close>, \<open>highestBidder\<close> and
  \<open>bidHistory\<close> at most; and a request that is not accepted leaves the store as it is.
\<close>

theorem frame:
  "let items' = fst (place_bid ops items sid nc ns data) in
     length items' = length items \<and>
     (\<forall>i<length items.
        id' (items' ! i) = id' (items ! i) \<and>
        minimumIncrement (items' ! i) = minimumIncrement (items ! i) \<and>
        endTime (items' ! i) = endTime (items ! i)) \<and>
     (\<forall>i<length items. id' (items ! i) \<noteq> auctionId data \<longrightarrow> items' ! i = items ! i) \<and>
     (\<forall>i<length items.
        findRef (\<lambda>item. id' item = auctionId data) items \<noteq> Some i \<longrightarrow> items' ! i = items ! i) \<and>
     (\<forall>i<length items.
        items' ! i = (items ! i)
          \<lparr>currentBid := currentBid (items' ! i),
           highestBidder := highestBidder (items' ! i),
           bidHistory := bidHistory (items' ! i)\<rparr>) \<and>
     (\<not> accepted (snd (place_bid ops items sid nc ns data)) \<longrightarrow> items' = items)"
proof (cases rule: place_bid_store [of ops items sid nc ns data])
  case same
  then show ?thesis by simp
next
  case (applied r)
  from findRef_Some [OF applied(1)] have idr: "id' (items ! r) = auctionId data" by auto
  from applied(1,3,4) have "accepted (snd (place_bid ops items sid nc ns data))"
    unfolding accepted_iff by blast
  then show ?thesis
    using applied(1,2) idr by (auto simp: applied(5) Let_def nth_list_update)
qed

theorem frame_witness:
  "length (fst (place_bid js (auctionItems 0 0 0 0) ''s2'' 5 6
      \<lparr>auctionId = 2, bidAmount = num 510, bidderName = Some ''B''\<rparr>)) = 4 \<and>
   currentBid (fst (place_bid js (auctionItems 0 0 0 0) ''s2'' 5 6
      \<lparr>auctionId = 2, bidAmount = num 510, bidderName = Some ''B''\<rparr>) ! 1) = num 510 \<and>
   fst (place_bid js (auctionItems 0 0 0 0) ''s2'' 5 6
      \<lparr>auctionId = 2, bidAmount = num 510, bidderName = Some ''B''\<rparr>) ! 0 = auctionItems 0 0 0 0 ! 0 \<and>
   endTime (fst (place_bid js (auctionItems 0 0 0 0) ''s2'' 5 6
      \<lparr>auctionId = 2, bidAmount = num 510, bidderName = Some ''B''\<rparr>) ! 1) = 1200000"
proof -
  let ?d = "\<lparr>auctionId = 2, bidAmount = num 510, bidderName = Some ''B''\<rparr>"
  have l: "length (auctionItems 0 0 0 0) = 4"
    and i0: "0 < length (auctionItems 0 0 0 0)" and i1: "1 < length (auctionItems 0 0 0 0)"
    and o: "id' (auctionItems 0 0 0 0 ! 0) \<noteq> auctionId ?d"
    and e: "endTime (auctionItems 0 0 0 0 ! 1) = 1200000"
    by (simp_all add: auctionItems_def)
  have f: "findRef (\<lambda>item. id' item = auctionId ?d) (auctionItems 0 0 0 0) = Some 1"
    by (simp add: auctionItems_def)
  have e5: "5 < endTime (auctionItems 0 0 0 0 ! 1)" by (simp add: auctionItems_def)
  have s: "js_add (num 500) (num 10) = num 510"
    using js_add_num [of 500 10] by simp
  have ok: "\<not> op_lt js (bidAmount ?d)
     (op_add js (currentBid (auctionItems 0 0 0 0 ! 1))
        (minimumIncrement (auctionItems 0 0 0 0 ! 1)))"
    by (simp add: js_ops auctionItems_def s js_lt_num)
  have d: "currentBid (fst (place_bid js (auctionItems 0 0 0 0) ''s2'' 5 6 ?d) ! 1) = num 510"
    using i1 by (simp add: place_bid_applied [OF f e5 ok])
  note F = frame [of js "auctionItems 0 0 0 0" "''s2''" 5 6 ?d, unfolded Let_def]
  from F l have a: "length (fst (place_bid js (auctionItems 0 0 0 0) ''s2'' 5 6 ?d)) = 4"
    by simp
  from F [THEN conjunct2, THEN conjunct2, THEN conjunct1, rule_format, OF i0 o]
  have b: "fst (place_bid js (auctionItems 0 0 0 0) ''s2'' 5 6 ?d) ! 0 = auctionItems 0 0 0 0 ! 0" .
  from F [THEN conjunct2, THEN conjunct1, rule_format, OF i1] e
  have c: "endTime (fst (place_bid js (auctionItems 0 0 0 0) ''s2'' 5 6 ?d) ! 1) = 1200000"
    by simp
  from a d b c show ?thesis by blast
qed

section \<open>Sequences of requests\<close>

text \<open>
  Claim C1. On the seed store, with the three deadline checks read before the first
  auction's \<open>endTime\<close>, the requests 160 by A, then 155 by B, then 170 by C on auction 1
  go as follows: A is accepted and the price becomes 160; B gets the too-low error with
  \<open>minimumBid\<close> 170, computed from 160 and not from the seed price 150, and the store stays
  as A left it; C is accepted and the price becomes 170. In general, after any sequence of
  calls on a store that started without bids, a request that resolves to an auction and
  passes the deadline check is validated against the amount of the last accepted bid on
  that auction (the seed price when there is none): with \<open>minimumBid\<close> the handler's sum of
  that amount and the increment, the request is accepted exactly when \<open>bidAmount < minimumBid\<close>
  is not true, and is answered with the too-low error carrying \<open>minimumBid\<close> otherwise.
\<close>

theorem arrival_order:
  "(nA < ta + 900000 \<and> nB < ta + 900000 \<and> nC < ta + 900000 \<longrightarrow>
     (let s0 = auctionItems ta tb tc td;
          rA = place_bid js s0 sA nA nA' \<lparr>auctionId = 1, bidAmount = num 160, bidderName = Some ''A''\<rparr>;
          rB = place_bid js (fst rA) sB nB nB' \<lparr>auctionId = 1, bidAmount = num 155, bidderName = Some ''B''\<rparr>;
          rC = place_bid js (fst rB) sC nC nC' \<lparr>auctionId = 1, bidAmount = num 170, bidderName = Some ''C''\<rparr>
      in snd rA =
           [IoEmit (AuctionUpdate 1 (num 160) (Some ''A'')
              [\<lparr>amount = num 160, bidder = ''A'', timestamp = nA'\<rparr>]),
            SocketEmit (BidSuccess 1 (num 160))] \<and>
         currentBid (fst rA ! 0) = num 160 \<and>
         rB = (fst rA,
               [SocketEmit (BidError (Template ''Bid must be at least $'' (num 170)) 1
                  (Some (num 170)))]) \<and>
         snd rC =
           [IoEmit (AuctionUpdate 1 (num 170) (Some ''C'')
              [\<lparr>amount = num 160, bidder = ''A'', timestamp = nA'\<rparr>,
               \<lparr>amount = num 170, bidder = ''C'', timestamp = nC'\<rparr>]),
            SocketEmit (BidSuccess 1 (num 170))] \<and>
         currentBid (fst rC ! 0) = num 170)) \<and>
   (fresh seed \<and> findRef (\<lambda>item. id' item = auctionId data) (serve ops seed cs) = Some r \<and>
    nc < endTime (serve ops seed cs ! r) \<longrightarrow>
     (let a = serve ops seed cs ! r;
          previous = (if bidHistory a = [] then currentBid (seed ! r)
                      else amount (last (bidHistory a)));
          minimumBid = op_add ops previous (minimumIncrement (seed ! r))
      in (accepted (snd (place_bid ops (serve ops seed cs) sid nc ns data)) \<longleftrightarrow>
            \<not> op_lt ops (bidAmount data) minimumBid) \<and>
         (place_bid ops (serve ops seed cs) sid nc ns data =
            (serve ops seed cs,
             [SocketEmit (BidError (Template ''Bid must be at least $'' minimumBid)
                (auctionId data) (Some minimumBid))]) \<longleftrightarrow>
            op_lt ops (bidAmount data) minimumBid)))"
proof (intro conjI impI)
  assume h: "nA < ta + 900000 \<and> nB < ta + 900000 \<and> nC < ta + 900000"
  let ?s0 = "auctionItems ta tb tc td"
  let ?dA = "\<lparr>auctionId = 1, bidAmount = num 160, bidderName = Some ''A''\<rparr>"
  let ?dB = "\<lparr>auctionId = 1, bidAmount = num 155, bidderName = Some ''B''\<rparr>"
  let ?dC = "\<lparr>auctionId = 1, bidAmount = num 170, bidderName = Some ''C''\<rparr>"
  let ?eA = "\<lparr>amount = num 160, bidder = ''A'', timestamp = nA'\<rparr>"
  let ?sA = "?s0[0 := (?s0 ! 0)\<lparr>currentBid := num 160, highestBidder := Some ''A'',
                 bidHistory := [?eA]\<rparr>]"
  have f0: "findRef (\<lambda>item. id' item = 1) ?s0 = Some 0" by (simp add: auctionItems_def)
  have v0: "currentBid (?s0 ! 0) = num 150" "minimumIncrement (?s0 ! 0) = num 10"
    "endTime (?s0 ! 0) = ta + 900000" "bidHistory (?s0 ! 0) = []" "0 < length ?s0"
    by (simp_all add: auctionItems_def)
  have rA: "place_bid js ?s0 sA nA nA' ?dA =
      (?sA, [IoEmit (AuctionUpdate 1 (num 160) (Some ''A'') [?eA]),
             SocketEmit (BidSuccess 1 (num 160))])"
    using place_bid_js_num(2) [of ?dA ?s0 0 nA 150 10 160 sA nA'] f0 v0 h by simp
  have fA: "findRef (\<lambda>item. id' item = 1) ?sA = Some 0"
    using findRef_place_bid [of 1 js ?s0 sA nA nA' ?dA] f0 by (simp add: rA)
  have vA: "currentBid (?sA ! 0) = num 160" "minimumIncrement (?sA ! 0) = num 10"
    "endTime (?sA ! 0) = ta + 900000" "bidHistory (?sA ! 0) = [?eA]"
    using v0 by simp_all
  have rB: "place_bid js ?sA sB nB nB' ?dB =
      (?sA, [SocketEmit (BidError (Template ''Bid must be at least $'' (num 170)) 1
                  (Some (num 170)))])"
    using place_bid_js_num(1) [of ?dB ?sA 0 nB 160 10 155 sB nB'] fA vA h by simp
  have rC: "snd (place_bid js ?sA sC nC nC' ?dC) =
      [IoEmit (AuctionUpdate 1 (num 170) (Some ''C'')
         [?eA, \<lparr>amount = num 170, bidder = ''C'', timestamp = nC'\<rparr>]),
       SocketEmit (BidSuccess 1 (num 170))]"
    "currentBid (fst (place_bid js ?sA sC nC nC' ?dC) ! 0) = num 170"
    using place_bid_js_num(2) [of ?dC ?sA 0 nC 160 10 170 sC nC'] fA vA h v0(5) by simp_all
  show "let s0 = auctionItems ta tb tc td;
          rA = place_bid js s0 sA nA nA' \<lparr>auctionId = 1, bidAmount = num 160, bidderName = Some ''A''\<rparr>;
          rB = place_bid js (fst rA) sB nB nB' \<lparr>auctionId = 1, bidAmount = num 155, bidderName = Some ''B''\<rparr>;
          rC = place_bid js (fst rB) sC nC nC' \<lparr>auctionId = 1, bidAmount = num 170, bidderName = Some ''C''\<rparr>
      in snd rA =
           [IoEmit (AuctionUpdate 1 (num 160) (Some ''A'')
              [\<lparr>amount = num 160, bidder = ''A'', timestamp = nA'\<rparr>]),
            SocketEmit (BidSuccess 1 (num 160))] \<and>
         currentBid (fst rA ! 0) = num 160 \<and>
         rB = (fst rA,
               [SocketEmit (BidError (Template ''Bid must be at least $'' (num 170)) 1
                  (Some (num 170)))]) \<and>
         snd rC =
           [IoEmit (AuctionUpdate 1 (num 170) (Some ''C'')
              [\<lparr>amount = num 160, bidder = ''A'', timestamp = nA'\<rparr>,
               \<lparr>amount = num 170, bidder = ''C'', timestamp = nC'\<rparr>]),
            SocketEmit (BidSuccess 1 (num 170))] \<and>
         currentBid (fst rC ! 0) = num 170"
    unfolding Let_def rA fst_conv snd_conv rB using vA(1) rC by simp
next
  let ?s = "serve ops seed cs"
  assume h: "fresh seed \<and> findRef (\<lambda>item. id' item = auctionId data) ?s = Some r \<and>
    nc < endTime (?s ! r)"
  then have found: "findRef (\<lambda>item. id' item = auctionId data) ?s = Some r"
    and live: "nc < endTime (?s ! r)" by simp_all
  from found have len: "r < length seed" by (auto dest: findRef_Some simp: serve_length)
  with h have t: "tracks ops (seed ! r) (?s ! r)" by (simp add: tracks_serve)
  have cur: "currentBid (?s ! r) = (if bidHistory (?s ! r) = [] then currentBid (seed ! r)
                      else amount (last (bidHistory (?s ! r))))"
    using t by (rule tracks_currentBid)
  have inc: "minimumIncrement (?s ! r) = minimumIncrement (seed ! r)"
    using len by (rule serve_fixed)
  show "let a = ?s ! r;
          previous = (if bidHistory a = [] then currentBid (seed ! r)
                      else amount (last (bidHistory a)));
          minimumBid = op_add ops previous (minimumIncrement (seed ! r))
      in (accepted (snd (place_bid ops ?s sid nc ns data)) \<longleftrightarrow>
            \<not> op_lt ops (bidAmount data) minimumBid) \<and>
         (place_bid ops ?s sid nc ns data =
            (?s,
             [SocketEmit (BidError (Template ''Bid must be at least $'' minimumBid)
                (auctionId data) (Some minimumBid))]) \<longleftrightarrow>
            op_lt ops (bidAmount data) minimumBid)"
  proof (cases "op_lt ops (bidAmount data)
      (op_add ops (currentBid (?s ! r)) (minimumIncrement (?s ! r)))")
    case True
    from place_bid_too_low [OF found live True, of sid ns] True
    show ?thesis
      unfolding Let_def cur [symmetric] inc [symmetric] by (simp add: accepted_def)
  next
    case False
    from place_bid_applied [OF found live False, of sid ns] False
    show ?thesis
      unfolding Let_def cur [symmetric] inc [symmetric] by (simp add: accepted_def)
  qed
qed

theorem arrival_order_witness:
  "((5::int) < 0 + 900000 \<and> (6::int) < 0 + 900000 \<and> (7::int) < 0 + 900000) \<and>
   currentBid (fst (place_bid js (auctionItems 0 0 0 0) ''sA'' 5 5
        \<lparr>auctionId = 1, bidAmount = num 160, bidderName = Some ''A''\<rparr>) ! 0) = num 160 \<and>
   place_bid js
     (fst (place_bid js (auctionItems 0 0 0 0) ''sA'' 5 5
        \<lparr>auctionId = 1, bidAmount = num 160, bidderName = Some ''A''\<rparr>))
     ''sB'' 6 6 \<lparr>auctionId = 1, bidAmount = num 155, bidderName = Some ''B''\<rparr> =
     (fst (place_bid js (auctionItems 0 0 0 0) ''sA'' 5 5
        \<lparr>auctionId = 1, bidAmount = num 160, bidderName = Some ''A''\<rparr>),
      [SocketEmit (BidError (Template ''Bid must be at least $'' (num 170)) 1 (Some (num 170)))]) \<and>
   currentBid (fst (place_bid js
     (fst (place_bid js
        (fst (place_bid js (auctionItems 0 0 0 0) ''sA'' 5 5
           \<lparr>auctionId = 1, bidAmount = num 160, bidderName = Some ''A''\<rparr>))
        ''sB'' 6 6 \<lparr>auctionId = 1, bidAmount = num 155, bidderName = Some ''B''\<rparr>))
     ''sC'' 7 7 \<lparr>auctionId = 1, bidAmount = num 170, bidderName = Some ''C''\<rparr>) ! 0) = num 170 \<and>
   (fresh (auctionItems 0 0 0 0) \<and>
    findRef (\<lambda>item. id' item = auctionId \<lparr>auctionId = 1, bidAmount = num 155, bidderName = Some ''B''\<rparr>)
      (serve js (auctionItems 0 0 0 0)
        [\<lparr>socket_id = ''sA'', now_check = 5, now_stamp = 5,
          payload_in = Some \<lparr>auctionId = 1, bidAmount = num 160, bidderName = Some ''A''\<rparr>\<rparr>]) = Some 0 \<and>
    6 < endTime (serve js (auctionItems 0 0 0 0)
        [\<lparr>socket_id = ''sA'', now_check = 5, now_stamp = 5,
          payload_in = Some \<lparr>auctionId = 1, bidAmount = num 160, bidderName = Some ''A''\<rparr>\<rparr>] ! 0)) \<and>
   amount (last (bidHistory (serve js (auctionItems 0 0 0 0)
        [\<lparr>socket_id = ''sA'', now_check = 5, now_stamp = 5,
          payload_in = Some \<lparr>auctionId = 1, bidAmount = num 160, bidderName = Some ''A''\<rparr>\<rparr>] ! 0))) =
     num 160 \<and>
   place_bid js
     (serve js (auctionItems 0 0 0 0)
        [\<lparr>socket_id = ''sA'', now_check = 5, now_stamp = 5,
          payload_in = Some \<lparr>auctionId = 1, bidAmount = num 160, bidderName = Some ''A''\<rparr>\<rparr>])
     ''sB'' 6 6 \<lparr>auctionId = 1, bidAmount = num 155, bidderName = Some ''B''\<rparr> =
     (serve js (auctionItems 0 0 0 0)
        [\<lparr>socket_id = ''sA'', now_check = 5, now_stamp = 5,
          payload_in = Some \<lparr>auctionId = 1, bidAmount = num 160, bidderName = Some ''A''\<rparr>\<rparr>],
      [SocketEmit (BidError (Template ''Bid must be at least $'' (num 170)) 1 (Some (num 170)))])"
proof -
  let ?cA = "\<lparr>socket_id = ''sA'', now_check = 5, now_stamp = 5,
          payload_in = Some \<lparr>auctionId = 1, bidAmount = num 160, bidderName = Some ''A''\<rparr>\<rparr>"
  let ?dB = "\<lparr>auctionId = 1, bidAmount = num 155, bidderName = Some ''B''\<rparr>"
  let ?S = "serve js (auctionItems 0 0 0 0) [?cA]"
  have h: "(5::int) < 0 + 900000 \<and> (6::int) < 0 + 900000 \<and> (7::int) < 0 + 900000"
    by simp
  note T = arrival_order [where nA = 5 and nB = 6 and nC = 7 and ta = 0 and tb = 0
      and tc = 0 and td = 0 and sA = "''sA''" and sB = "''sB''" and sC = "''sC''"
      and nA' = 5 and nB' = 6 and nC' = 7 and ops = js and seed = "auctionItems 0 0 0 0"
      and cs = "[?cA]" and data = ?dB and r = 0 and nc = 6 and sid = "''sB''" and ns = 6]
  note S = T [THEN conjunct1, THEN mp, OF h, unfolded Let_def]
  note a = S [THEN conjunct2, THEN conjunct1]
  note b = S [THEN conjunct2, THEN conjunct2, THEN conjunct1]
  note c = S [THEN conjunct2, THEN conjunct2, THEN conjunct2, THEN conjunct2]
  have A: "?S ! 0 = (auctionItems 0 0 0 0 ! 0)
           \<lparr>currentBid := num 160, highestBidder := Some ''A'',
            bidHistory := [\<lparr>amount = num 160, bidder = ''A'', timestamp = 5\<rparr>]\<rparr>"
    using seed_first_bid [of 5 0 160 0 0 0 "''sA''" 5 "Some ''A''"] by simp
  have g: "fresh (auctionItems 0 0 0 0) \<and>
    findRef (\<lambda>item. id' item = auctionId ?dB) ?S = Some 0 \<and> 6 < endTime (?S ! 0)"
    unfolding findRef_serve A by (simp add: auctionItems_fresh) (simp add: auctionItems_def)
  have hist: "bidHistory (?S ! 0) \<noteq> []" "amount (last (bidHistory (?S ! 0))) = num 160"
    unfolding A by simp_all
  have inc: "minimumIncrement (auctionItems 0 0 0 0 ! 0) = num 10"
    by (simp add: auctionItems_def)
  have s: "js_add (num 160) (num 10) = num 170"
    using js_add_num [of 160 10] by simp
  note G = T [THEN conjunct2, THEN mp, OF g, unfolded Let_def, THEN conjunct2]
  from G hist inc s
  have d: "place_bid js ?S ''sB'' 6 6 ?dB =
     (?S, [SocketEmit (BidError (Template ''Bid must be at least $'' (num 170)) 1 (Some (num 170)))])"
    by (simp add: js_ops js_lt_num)
  from h a b c g hist(2) d show ?thesis by blast
qed

text \<open>
  Claim C4. An accepted bid appends exactly one entry, made of the request's amount, the
  recorded bidder and the stamp reading, at the end of the auction's \<open>bidHistory\<close>, and
  leaves \<open>currentBid\<close> equal to the request's amount and to the last entry's amount, and
  \<open>highestBidder\<close> equal to the last entry's bidder. After any sequence of calls on a
  store that started without bids, every auction's \<open>currentBid\<close> is the amount of its last
  history entry, or its seed price when the history is empty, and its \<open>highestBidder\<close> is
  the bidder of the last entry, or none when the history is empty.
\<close>

theorem history_tracks_price:
  "(findRef (\<lambda>item. id' item = auctionId data) items = Some r \<and>
    accepted (snd (place_bid ops items sid nc ns data)) \<longrightarrow>
      (let a' = fst (place_bid ops items sid nc ns data) ! r in
         bidHistory a' = bidHistory (items ! r) @
           [\<lparr>amount = bidAmount data, bidder = orElse (bidderName data) sid, timestamp = ns\<rparr>] \<and>
         currentBid a' = bidAmount data \<and>
         currentBid a' = amount (last (bidHistory a')) \<and>
         highestBidder a' = Some (bidder (last (bidHistory a'))))) \<and>
   (fresh seed \<and> i < length seed \<longrightarrow>
      (let a = serve ops seed cs ! i in
         currentBid a =
           (if bidHistory a = [] then currentBid (seed ! i) else amount (last (bidHistory a))) \<and>
         highestBidder a =
           (if bidHistory a = [] then None else Some (bidder (last (bidHistory a))))))"
proof (intro conjI impI)
  assume h: "findRef (\<lambda>item. id' item = auctionId data) items = Some r \<and>
    accepted (snd (place_bid ops items sid nc ns data))"
  then have found: "findRef (\<lambda>item. id' item = auctionId data) items = Some r" ..
  from h have ok: "nc < endTime (items ! r)"
    "\<not> op_lt ops (bidAmount data)
       (op_add ops (currentBid (items ! r)) (minimumIncrement (items ! r)))"
    by (auto simp: accepted_iff)
  from found have "r < length items" by (auto dest: findRef_Some)
  then show "let a' = fst (place_bid ops items sid nc ns data) ! r in
         bidHistory a' = bidHistory (items ! r) @
           [\<lparr>amount = bidAmount data, bidder = orElse (bidderName data) sid, timestamp = ns\<rparr>] \<and>
         currentBid a' = bidAmount data \<and>
         currentBid a' = amount (last (bidHistory a')) \<and>
         highestBidder a' = Some (bidder (last (bidHistory a')))"
    by (simp add: place_bid_applied [OF found ok] Let_def)
next
  assume "fresh seed \<and> i < length seed"
  then have "tracks ops (seed ! i) (serve ops seed cs ! i)" by (simp add: tracks_serve)
  then show "let a = serve ops seed cs ! i in
         currentBid a =
           (if bidHistory a = [] then currentBid (seed ! i) else amount (last (bidHistory a))) \<and>
         highestBidder a =
           (if bidHistory a = [] then None else Some (bidder (last (bidHistory a))))"
    unfolding Let_def
    using tracks_currentBid tracks_highestBidder by blast
qed

theorem history_tracks_price_witness:
  "(fresh (auctionItems 0 0 0 0) \<and> 0 < length (auctionItems 0 0 0 0)) \<and>
   bidHistory (serve js (auctionItems 0 0 0 0)
      [\<lparr>socket_id = ''s1'', now_check = 5, now_stamp = 5,
        payload_in = Some \<lparr>auctionId = 1, bidAmount = num 160, bidderName = Some ''A''\<rparr>\<rparr>] ! 0) =
     [\<lparr>amount = num 160, bidder = ''A'', timestamp = 5\<rparr>] \<and>
   currentBid (serve js (auctionItems 0 0 0 0)
      [\<lparr>socket_id = ''s1'', now_check = 5, now_stamp = 5,
        payload_in = Some \<lparr>auctionId = 1, bidAmount = num 160, bidderName = Some ''A''\<rparr>\<rparr>] ! 0) =
   amount (last (bidHistory (serve js (auctionItems 0 0 0 0)
      [\<lparr>socket_id = ''s1'', now_check = 5, now_stamp = 5,
        payload_in = Some \<lparr>auctionId = 1, bidAmount = num 160, bidderName = Some ''A''\<rparr>\<rparr>] ! 0)))"
proof -
  let ?cs = "[\<lparr>socket_id = ''s1'', now_check = 5, now_stamp = 5,
        payload_in = Some \<lparr>auctionId = 1, bidAmount = num 160, bidderName = Some ''A''\<rparr>\<rparr>]"
  have f: "fresh (auctionItems 0 0 0 0) \<and> 0 < length (auctionItems 0 0 0 0)"
    by (simp add: fresh_def auctionItems_def)
  have n: "bidHistory (serve js (auctionItems 0 0 0 0) ?cs ! 0) =
     [\<lparr>amount = num 160, bidder = ''A'', timestamp = 5\<rparr>]"
    using seed_first_bid [of 5 0 160 0 0 0 "''s1''" 5 "Some ''A''"] by simp
  note T = history_tracks_price [where ops = js and seed = "auctionItems 0 0 0 0" and i = 0
      and cs = ?cs, THEN conjunct2, THEN mp, OF f, unfolded Let_def, THEN conjunct1]
  from T n have "currentBid (serve js (auctionItems 0 0 0 0) ?cs ! 0) =
     amount (last (bidHistory (serve js (auctionItems 0 0 0 0) ?cs ! 0)))"
    by simp
  with f n show ?thesis by blast
qed




text \<open>
  Claim C6 as stated fails. The handler reads the clock once for the deadline check and
  once more for the history entry. On the seed store loaded at time 0, a bid whose check
  reads 899999 and whose stamp reads 900000 is accepted, and its entry carries the
  timestamp 900000, which is the auction's \<open>endTime\<close>.
\<close>

theorem late_stamp_counterexample:
  "fresh (auctionItems 0 0 0 0) \<and>
   bidHistory (serve js (auctionItems 0 0 0 0)
      [\<lparr>socket_id = ''s1'', now_check = 899999, now_stamp = 900000,
        payload_in = Some \<lparr>auctionId = 1, bidAmount = num 160, bidderName = Some ''A''\<rparr>\<rparr>] ! 0) =
     [\<lparr>amount = num 160, bidder = ''A'', timestamp = 900000\<rparr>] \<and>
   endTime (serve js (auctionItems 0 0 0 0)
      [\<lparr>socket_id = ''s1'', now_check = 899999, now_stamp = 900000,
        payload_in = Some \<lparr>auctionId = 1, bidAmount = num 160, bidderName = Some ''A''\<rparr>\<rparr>] ! 0) = 900000 \<and>
   \<not> timestamp (last (bidHistory (serve js (auctionItems 0 0 0 0)
      [\<lparr>socket_id = ''s1'', now_check = 899999, now_stamp = 900000,
        payload_in = Some \<lparr>auctionId = 1, bidAmount = num 160, bidderName = Some ''A''\<rparr>\<rparr>] ! 0))) <
     endTime (serve js (auctionItems 0 0 0 0)
      [\<lparr>socket_id = ''s1'', now_check = 899999, now_stamp = 900000,
        payload_in = Some \<lparr>auctionId = 1, bidAmount = num 160, bidderName = Some ''A''\<rparr>\<rparr>] ! 0)"
  using seed_first_bid [of 899999 0 160 0 0 0 "''s1''" 900000 "Some ''A''"]
  by (simp add: auctionItems_fresh) (simp add: auctionItems_def)

text \<open>
  Claim C6, amended. After any sequence of calls on a store that started without bids,
  every history entry of an auction was appended by one of the calls: that call resolved
  to this auction, was accepted on the store the calls before it had left, found the
  history as long as the entry's position, and the entry carries its amount, its recorded
  bidder and its stamp reading. The deadline check of that same call read a time strictly
  before the auction's \<open>endTime\<close>; so the entry's timestamp is strictly before \<open>endTime\<close>
  whenever that call's stamp reading is not later than its check reading.
\<close>

theorem stamps_checked:
  assumes "fresh seed" and "i < length seed"
    and "k < length (bidHistory (serve ops seed cs ! i))"
  shows "\<exists>pre c d post.
           cs = pre @ c # post \<and> payload_in c = Some d \<and>
           findRef (\<lambda>item. id' item = auctionId d) (serve ops seed pre) = Some i \<and>
           accepted (snd (place_bid ops (serve ops seed pre)
             (socket_id c) (now_check c) (now_stamp c) d)) \<and>
           length (bidHistory (serve ops seed pre ! i)) = k \<and>
           bidHistory (serve ops seed cs ! i) ! k =
             \<lparr>amount = bidAmount d, bidder = orElse (bidderName d) (socket_id c),
              timestamp = now_stamp c\<rparr> \<and>
           now_check c < endTime (serve ops seed cs ! i) \<and>
           (now_stamp c \<le> now_check c \<longrightarrow>
              timestamp (bidHistory (serve ops seed cs ! i) ! k) < endTime (serve ops seed cs ! i))"
proof -
  from assms(1,2) have "length (bidHistory (seed ! i)) \<le> k"
    by (simp add: fresh_def list_all_length)
  from appended_by [OF assms(2,3) this] obtain pre c d post where
    p: "cs = pre @ c # post" "payload_in c = Some d"
      "findRef (\<lambda>item. id' item = auctionId d) (serve ops seed pre) = Some i"
      "now_check c < endTime (seed ! i)"
      "\<not> op_lt ops (bidAmount d)
          (op_add ops (currentBid (serve ops seed pre ! i)) (minimumIncrement (seed ! i)))"
      "length (bidHistory (serve ops seed pre ! i)) = k"
      "bidHistory (serve ops seed cs ! i) ! k =
         \<lparr>amount = bidAmount d, bidder = orElse (bidderName d) (socket_id c),
          timestamp = now_stamp c\<rparr>"
    by blast
  have fx: "endTime (serve ops seed pre ! i) = endTime (seed ! i)"
    "minimumIncrement (serve ops seed pre ! i) = minimumIncrement (seed ! i)"
    "endTime (serve ops seed cs ! i) = endTime (seed ! i)"
    using assms(2) by (simp_all add: serve_fixed)
  have acc: "accepted (snd (place_bid ops (serve ops seed pre)
             (socket_id c) (now_check c) (now_stamp c) d))"
    unfolding accepted_iff using p(3,4,5) fx by auto
  have late: "timestamp (bidHistory (serve ops seed cs ! i) ! k) < endTime (serve ops seed cs ! i)"
    if "now_stamp c \<le> now_check c"
    using that p(4,7) fx(3) by simp
  from p(1,2,3) acc p(6,7) p(4) late show ?thesis
    unfolding fx(3) by blast
qed

theorem stamps_checked_witness:
  "fresh (auctionItems 0 0 0 0) \<and> 0 < length (auctionItems 0 0 0 0) \<and>
   0 < length (bidHistory (serve js (auctionItems 0 0 0 0)
      [\<lparr>socket_id = ''s1'', now_check = 5, now_stamp = 5,
        payload_in = Some \<lparr>auctionId = 1, bidAmount = num 160, bidderName = Some ''A''\<rparr>\<rparr>] ! 0)) \<and>
   timestamp (bidHistory (serve js (auctionItems 0 0 0 0)
      [\<lparr>socket_id = ''s1'', now_check = 5, now_stamp = 5,
        payload_in = Some \<lparr>auctionId = 1, bidAmount = num 160, bidderName = Some ''A''\<rparr>\<rparr>] ! 0) ! 0) <
     endTime (serve js (auctionItems 0 0 0 0)
      [\<lparr>socket_id = ''s1'', now_check = 5, now_stamp = 5,
        payload_in = Some \<lparr>auctionId = 1, bidAmount = num 160, bidderName = Some ''A''\<rparr>\<rparr>] ! 0)"
proof -
  let ?c = "\<lparr>socket_id = ''s1'', now_check = 5, now_stamp = 5,
        payload_in = Some \<lparr>auctionId = 1, bidAmount = num 160, bidderName = Some ''A''\<rparr>\<rparr>"
  let ?a = "serve js (auctionItems 0 0 0 0) [?c] ! 0"
  have f: "fresh (auctionItems 0 0 0 0)" and l: "0 < length (auctionItems 0 0 0 0)"
    by (simp_all add: fresh_def auctionItems_def)
  have m: "0 < length (bidHistory ?a)"
    using seed_first_bid [of 5 0 160 0 0 0 "''s1''" 5 "Some ''A''"] by simp
  from stamps_checked [OF f l m] obtain pre c d post where
    p: "[?c] = pre @ c # post"
      "now_stamp c \<le> now_check c \<longrightarrow> timestamp (bidHistory ?a ! 0) < endTime ?a"
    by blast
  from p(1) have "c = ?c" by (cases pre) auto
  then have "now_stamp c \<le> now_check c" by simp
  with p(2) have "timestamp (bidHistory ?a ! 0) < endTime ?a" by blast
  with f l m show ?thesis by blast
qed

end
